theory Spec2Isabelle
  imports Complex_Main "HOL-Library.Word"
begin

unbundle bit_operations_syntax

section \<open>Wire protocol (src/shared/protocol.ts)\<close>

text \<open>
  A frame that \<open>JSON.parse\<close> accepts is a JSON value. Every number the schemas accept
  must pass \<open>z.number().int()\<close>, so a number is either integer-valued (\<open>Integer n\<close>,
  an integer-valued double, \<open>-0\<close> being \<open>0\<close>) or anything else (\<open>NonInteger\<close>).
  A \<open>string\<close> is a JavaScript string, one \<open>char\<close> per code unit, so \<open>length\<close> is
  \<open>.length\<close> and \<open>take 24\<close> is \<open>.slice(0, 24)\<close>. An object is the list of its own
  properties.
\<close>

datatype js_number = Integer int | NonInteger

datatype json =
    JNull
  | JBool bool
  | JNum js_number
  | JStr string
  | JArr "json list"
  | JObj "(string \<times> json) list"

text \<open>Reading a property; \<open>None\<close> is \<open>undefined\<close> (the property is absent).\<close>

definition get_key :: "(string \<times> json) list \<Rightarrow> string \<Rightarrow> json option" where
  "get_key obj k = map_of obj k"

text \<open>The validated client-to-server messages (the type inferred from the schema).\<close>

datatype ClientToServer =
    HelloMsg "string option"
  | CursorMsg int int
  | PingMsg int

text \<open>\<open>z.string().min(1).max(24).optional()\<close>\<close>

definition name_schema :: "json option \<Rightarrow> string option option" where
  "name_schema v =
     (case v of
        None \<Rightarrow> Some None
      | Some (JStr s) \<Rightarrow> if 1 \<le> length s \<and> length s \<le> 24 then Some (Some s) else None
      | Some _ \<Rightarrow> None)"

text \<open>\<open>z.number().int().nonnegative()\<close>\<close>

definition nonnegative_int_schema :: "json option \<Rightarrow> int option" where
  "nonnegative_int_schema v =
     (case v of
        Some (JNum (Integer n)) \<Rightarrow> if 0 \<le> n then Some n else None
      | _ \<Rightarrow> None)"

text \<open>\<open>z.number().int()\<close>\<close>

definition int_schema :: "json option \<Rightarrow> int option" where
  "int_schema v = (case v of Some (JNum (Integer n)) \<Rightarrow> Some n | _ \<Rightarrow> None)"

definition HelloMsg_safeParse :: "(string \<times> json) list \<Rightarrow> ClientToServer option" where
  "HelloMsg_safeParse obj =
     (if get_key obj ''kind'' = Some (JStr ''hello'')
         \<and> get_key obj ''version'' = Some (JNum (Integer 1))
      then (case name_schema (get_key obj ''name'') of
              Some nm \<Rightarrow> Some (HelloMsg nm)
            | None \<Rightarrow> None)
      else None)"

definition CursorMsg_safeParse :: "(string \<times> json) list \<Rightarrow> ClientToServer option" where
  "CursorMsg_safeParse obj =
     (if get_key obj ''kind'' = Some (JStr ''cursor'')
      then (case (nonnegative_int_schema (get_key obj ''col''),
                  nonnegative_int_schema (get_key obj ''row'')) of
              (Some c, Some r) \<Rightarrow> Some (CursorMsg c r)
            | _ \<Rightarrow> None)
      else None)"

definition PingMsg_safeParse :: "(string \<times> json) list \<Rightarrow> ClientToServer option" where
  "PingMsg_safeParse obj =
     (if get_key obj ''kind'' = Some (JStr ''ping'')
      then (case int_schema (get_key obj ''t'') of
              Some t \<Rightarrow> Some (PingMsg t)
            | None \<Rightarrow> None)
      else None)"

text \<open>
  \<open>z.discriminatedUnion('kind', [HelloMsg, CursorMsg, PingMsg])\<close>: the input must be an
  object whose \<open>kind\<close> selects one of the three schemas; \<open>None\<close> is
  \<open>success: false\<close>.
\<close>

definition ClientToServer_safeParse :: "json \<Rightarrow> ClientToServer option" where
  "ClientToServer_safeParse msg =
     (case msg of
        JObj obj \<Rightarrow>
          (case get_key obj ''kind'' of
             Some (JStr k) \<Rightarrow>
               if k = ''hello'' then HelloMsg_safeParse obj
               else if k = ''cursor'' then CursorMsg_safeParse obj
               else if k = ''ping'' then PingMsg_safeParse obj
               else None
           | _ \<Rightarrow> None)
      | _ \<Rightarrow> None)"

text \<open>The server-to-client messages, before \<open>JSON.stringify\<close>.\<close>

record Cursor =
  col :: int
  row :: int

record Grid =
  tileSize :: int
  cols :: int
  rows :: int

record Player =
  p_id :: string
  p_name :: "string option"
  p_cursor :: "Cursor option"
  p_lastSeen :: int

datatype ServerToClient =
    WelcomeMsg string Grid
  | PlayersSnapshotMsg "Player list"
  | PlayerUpdateMsg Player
  | PlayerLeaveMsg string

section \<open>Server session store and broadcaster (server/server.ts)\<close>

datatype ready_state = CONNECTING | OPEN | CLOSING | CLOSED

text \<open>
  \<open>ClientState\<close>: the object a connection handler creates and its closures keep. The
  field \<open>cs_ws\<close> is the \<open>readyState\<close> of its socket.
\<close>

record ClientState =
  cs_id :: string
  cs_name :: "string option"
  cs_cursor :: "Cursor option"
  cs_lastSeen :: int
  cs_ws :: ready_state

record AdminSnapshot =
  snap_count :: nat
  snap_grid :: Grid
  snap_players :: "Player list"

text \<open>
  One call of \<open>send\<close>: a game message handed to the socket of the state object at a
  reference, or a snapshot handed to an admin socket.
\<close>

datatype sent = GameSend nat ServerToClient | AdminSend nat AdminSnapshot

text \<open>
  The server: \<open>heap\<close> holds every \<open>ClientState\<close> object created so far (a reference is
  its index), \<open>clients\<close> is the \<open>Map\<close> from id to reference in insertion order,
  \<open>admins\<close> the \<open>readyState\<close> of every socket of \<open>adminWss.clients\<close>, and \<open>wire\<close>
  the calls of \<open>send\<close> in the order they were made.
\<close>

record server =
  heap :: "ClientState list"
  clients :: "(string \<times> nat) list"
  admins :: "ready_state list"
  wire :: "sent list"

definition GRID :: Grid where
  "GRID = \<lparr>tileSize = 32, cols = 40, rows = 24\<rparr>"

text \<open>\<open>Map.prototype.set\<close>: an existing key keeps its place, a new key goes last.\<close>

fun Map_set :: "'k \<Rightarrow> 'v \<Rightarrow> ('k \<times> 'v) list \<Rightarrow> ('k \<times> 'v) list" where
  "Map_set k v [] = [(k, v)]"
| "Map_set k v ((k', v') # kvs) =
     (if k' = k then (k, v) # kvs else (k', v') # Map_set k v kvs)"

text \<open>\<open>Map.prototype.delete\<close>\<close>

definition Map_delete :: "'k \<Rightarrow> ('k \<times> 'v) list \<Rightarrow> ('k \<times> 'v) list" where
  "Map_delete k kvs = filter (\<lambda>kv. fst kv \<noteq> k) kvs"

text \<open>The summary \<open>{ id, name, cursor, lastSeen }\<close> of a state object.\<close>

definition summary :: "ClientState \<Rightarrow> Player" where
  "summary c =
     \<lparr>p_id = cs_id c, p_name = cs_name c, p_cursor = cs_cursor c, p_lastSeen = cs_lastSeen c\<rparr>"

text \<open>\<open>Array.from(clients.values()).map(c => ({ ... }))\<close>\<close>

definition players_of :: "server \<Rightarrow> Player list" where
  "players_of s = map (\<lambda>kv. summary (heap s ! snd kv)) (clients s)"

text \<open>
  The loop of \<open>broadcast\<close> over the entries of \<open>clients\<close>: the entry of \<open>exceptId\<close> is
  skipped, and so is a socket that is not open.
\<close>

fun broadcast_loop ::
  "ClientState list \<Rightarrow> ServerToClient \<Rightarrow> string option \<Rightarrow> (string \<times> nat) list \<Rightarrow> sent list"
where
  "broadcast_loop h msg exceptId [] = []"
| "broadcast_loop h msg exceptId ((k, r) # rest) =
     (if Some k = exceptId then broadcast_loop h msg exceptId rest
      else if cs_ws (h ! r) = OPEN then GameSend r msg # broadcast_loop h msg exceptId rest
      else broadcast_loop h msg exceptId rest)"

definition broadcast :: "ServerToClient \<Rightarrow> string option \<Rightarrow> server \<Rightarrow> server" where
  "broadcast msg exceptId s =
     s\<lparr>wire := wire s @ broadcast_loop (heap s) msg exceptId (clients s)\<rparr>"

definition adminBroadcast :: "server \<Rightarrow> server" where
  "adminBroadcast s =
     (let snapshot =
            \<lparr>snap_count = length (clients s), snap_grid = GRID, snap_players = players_of s\<rparr>
      in s\<lparr>wire := wire s @
             map (\<lambda>a. AdminSend a snapshot)
               (filter (\<lambda>a. admins s ! a = OPEN) [0 ..< length (admins s)])\<rparr>)"

text \<open>A write to the state object at a reference.\<close>

definition modify :: "nat \<Rightarrow> (ClientState \<Rightarrow> ClientState) \<Rightarrow> server \<Rightarrow> server" where
  "modify r f s = s\<lparr>heap := (heap s)[r := f (heap s ! r)]\<rparr>"

text \<open>
  \<open>gameWss.on('connection', ...)\<close>: \<open>nid\<close> is what \<open>nanoid(8)\<close> returned and \<open>t\<close> what
  \<open>now()\<close> returned. The new state object gets the next reference; its socket is
  open.
\<close>

definition on_connection :: "string \<Rightarrow> int \<Rightarrow> server \<Rightarrow> server" where
  "on_connection nid t s =
     (let r = length (heap s);
          state = \<lparr>cs_id = nid, cs_name = None, cs_cursor = None, cs_lastSeen = t, cs_ws = OPEN\<rparr>;
          s1 = s\<lparr>heap := heap s @ [state], clients := Map_set nid r (clients s)\<rparr>;
          s2 = s1\<lparr>wire := wire s1 @ [GameSend r (WelcomeMsg nid GRID)]\<rparr>;
          s3 = s2\<lparr>wire := wire s2 @ [GameSend r (PlayersSnapshotMsg (players_of s2))]\<rparr>
      in adminBroadcast s3)"

text \<open>
  \<open>ws.on('message', ...)\<close> of the connection whose state object is at \<open>r\<close>: \<open>t\<close> is
  what \<open>now()\<close> returned, \<open>buf\<close> the result of \<open>JSON.parse(String(buf))\<close>, \<open>None\<close>
  when it threw.
\<close>

definition on_message :: "nat \<Rightarrow> int \<Rightarrow> json option \<Rightarrow> server \<Rightarrow> server" where
  "on_message r t buf s =
     (let s1 = modify r (\<lambda>c. c\<lparr>cs_lastSeen := t\<rparr>) s in
      case buf of
        None \<Rightarrow> s1
      | Some msg \<Rightarrow>
          (case ClientToServer_safeParse msg of
             None \<Rightarrow> s1
           | Some (HelloMsg nm) \<Rightarrow>
               (let s2 = modify r (\<lambda>c. c\<lparr>cs_name := map_option (take 24) nm\<rparr>) s1
                in adminBroadcast
                     (broadcast (PlayerUpdateMsg (summary (heap s2 ! r))) None s2))
           | Some (CursorMsg c rw) \<Rightarrow>
               (let col' = max 0 (min (cols GRID - 1) c);
                    row' = max 0 (min (rows GRID - 1) rw);
                    s2 = modify r (\<lambda>st. st\<lparr>cs_cursor := Some \<lparr>col = col', row = row'\<rparr>\<rparr>) s1
                in adminBroadcast
                     (broadcast (PlayerUpdateMsg (summary (heap s2 ! r)))
                        (Some (cs_id (heap s2 ! r))) s2))
           | Some (PingMsg x) \<Rightarrow> s1))"

text \<open>
  \<open>ws.on('close', ...)\<close> of the connection whose state object is at \<open>r\<close>; \<open>id\<close> is the
  id the connection handler drew.
\<close>

definition on_close :: "nat \<Rightarrow> server \<Rightarrow> server" where
  "on_close r s =
     (let ident = cs_id (heap s ! r);
          s1 = s\<lparr>clients := Map_delete ident (clients s)\<rparr>
      in adminBroadcast (broadcast (PlayerLeaveMsg ident) None s1))"

text \<open>The socket of the state object at \<open>r\<close> changes its \<open>readyState\<close>.\<close>

definition socket_state :: "nat \<Rightarrow> ready_state \<Rightarrow> server \<Rightarrow> server" where
  "socket_state r st s = modify r (\<lambda>c. c\<lparr>cs_ws := st\<rparr>) s"

text \<open>\<open>adminWss.on('connection', ...)\<close>: the new socket is in \<open>adminWss.clients\<close>.\<close>

definition on_admin_connection :: "server \<Rightarrow> server" where
  "on_admin_connection s = adminBroadcast (s\<lparr>admins := admins s @ [OPEN]\<rparr>)"

definition initial_server :: server where
  "initial_server = \<lparr>heap = [], clients = [], admins = [], wire = []\<rparr>"

text \<open>The calls of \<open>send\<close> made between two states, and the game messages among them.\<close>

definition new_wire :: "server \<Rightarrow> server \<Rightarrow> sent list" where
  "new_wire s s' = drop (length (wire s)) (wire s')"

fun game_sends :: "sent list \<Rightarrow> (nat \<times> ServerToClient) list" where
  "game_sends [] = []"
| "game_sends (GameSend r m # xs) = (r, m) # game_sends xs"
| "game_sends (AdminSend a x # xs) = game_sends xs"

text \<open>
  What the handlers keep true of the store: no id is a key twice, an entry of
  \<open>clients\<close> refers to the state object that carries its key as id, every state
  object whose socket is open is an entry of \<open>clients\<close>, and every game message
  went to a socket that exists.
\<close>

definition store_ok :: "server \<Rightarrow> bool" where
  "store_ok s \<longleftrightarrow>
     distinct (map fst (clients s))
     \<and> list_all (\<lambda>kv. snd kv < length (heap s) \<and> cs_id (heap s ! snd kv) = fst kv) (clients s)
     \<and> list_all (\<lambda>x. cs_ws (heap s ! x) = OPEN \<longrightarrow> (cs_id (heap s ! x), x) \<in> set (clients s))
           [0 ..< length (heap s)]
     \<and> list_all (\<lambda>e. case e of GameSend x m \<Rightarrow> x < length (heap s) | AdminSend a m \<Rightarrow> True)
           (wire s)"

text \<open>
  The frames the client writes: \<open>{ kind: 'hello', version: 1, name }\<close> (an undefined
  name is left out by \<open>JSON.stringify\<close>) and \<open>{ kind: 'cursor', col, row }\<close>.
\<close>

definition hello_frame :: "string option \<Rightarrow> json" where
  "hello_frame nm =
     JObj ([(''kind'', JStr ''hello''), (''version'', JNum (Integer 1))]
           @ (case nm of None \<Rightarrow> [] | Some n \<Rightarrow> [(''name'', JStr n)]))"

definition cursor_frame :: "int \<Rightarrow> int \<Rightarrow> json" where
  "cursor_frame c r =
     JObj [(''kind'', JStr ''cursor''), (''col'', JNum (Integer c)), (''row'', JNum (Integer r))]"

text \<open>A frame the message handler drops: \<open>JSON.parse\<close> threw, or the schema refused it.\<close>

definition invalid_frame :: "json option \<Rightarrow> bool" where
  "invalid_frame buf =
     (case buf of None \<Rightarrow> True | Some msg \<Rightarrow> ClientToServer_safeParse msg = None)"

text \<open>A store that two connections have joined, with ids \<open>a1\<close> and \<open>b2\<close>.\<close>

definition two_clients :: server where
  "two_clients = on_connection ''b2'' 2 (on_connection ''a1'' 1 initial_server)"

section \<open>Client network adapter (src/engine/net/Client.ts)\<close>

text \<open>
  A \<open>WebSocket\<close> that \<open>connect\<close> created: its \<open>readyState\<close> and the name that its
  \<open>onopen\<close> closure captured.
\<close>

record Socket =
  so_readyState :: ready_state
  so_name :: "string option"

text \<open>
  \<open>NetClient\<close>: \<open>sockets\<close> holds every socket created so far (a reference is its index),
  \<open>nc_ws\<close> is \<open>this.ws\<close> (\<open>None\<close> is \<open>null\<close>), \<open>lastSend\<close> a reading of
  \<open>performance.now()\<close> in milliseconds, and \<open>transmitted\<close> the frames handed to
  \<open>this.ws.send\<close>, in order. Times are real numbers. For a clock that does
  not run backwards the comparison \<open>now - lastSend < 33\<close> on doubles decides the same:
  the subtraction is exact when \<open>lastSend \<le> now \<le> 2 * lastSend\<close>, which holds whenever
  the difference is below 33 and \<open>lastSend\<close> is not its initial 0, and rounding never
  takes a difference of 33 or more below 33.
\<close>

record NetClient =
  sockets :: "Socket list"
  nc_ws :: "nat option"
  lastSend :: real
  connecting :: bool
  transmitted :: "ClientToServer list"

definition NetClient_new :: NetClient where
  "NetClient_new =
     \<lparr>sockets = [], nc_ws = None, lastSend = 0, connecting = False, transmitted = []\<rparr>"

text \<open>The test \<open>this.ws && this.ws.readyState === WebSocket.OPEN\<close> of \<open>connect\<close> and \<open>send\<close>.\<close>

definition ws_open :: "NetClient \<Rightarrow> bool" where
  "ws_open c =
     (case nc_ws c of None \<Rightarrow> False | Some k \<Rightarrow> so_readyState (sockets c ! k) = OPEN)"

definition send :: "ClientToServer \<Rightarrow> NetClient \<Rightarrow> NetClient" where
  "send msg c = (if \<not> ws_open c then c else c\<lparr>transmitted := transmitted c @ [msg]\<rparr>)"

definition sendCursor :: "real \<Rightarrow> int \<Rightarrow> int \<Rightarrow> NetClient \<Rightarrow> NetClient" where
  "sendCursor now c r nc =
     (if now - lastSend nc < 33 then nc
      else send (CursorMsg c r) (nc\<lparr>lastSend := now\<rparr>))"

text \<open>\<open>connect(name)\<close>: the new socket is connecting and becomes \<open>this.ws\<close>.\<close>

definition connect :: "string option \<Rightarrow> NetClient \<Rightarrow> NetClient" where
  "connect nm c =
     (if ws_open c then c
      else if connecting c then c
      else c\<lparr>connecting := True,
              sockets := sockets c @ [\<lparr>so_readyState = CONNECTING, so_name = nm\<rparr>],
              nc_ws := Some (length (sockets c))\<rparr>)"

text \<open>The \<open>readyState\<close> of the socket at \<open>k\<close> changes.\<close>

definition set_readyState :: "nat \<Rightarrow> ready_state \<Rightarrow> NetClient \<Rightarrow> NetClient" where
  "set_readyState k st c =
     c\<lparr>sockets := (sockets c)[k := (sockets c ! k)\<lparr>so_readyState := st\<rparr>]\<rparr>"

text \<open>
  \<open>ws.onopen\<close> of the socket at \<open>k\<close>, which has become open. The handler does not write
  \<open>this.ws\<close>: \<open>send\<close> looks at whatever socket \<open>this.ws\<close> is by then.
\<close>

definition onopen :: "nat \<Rightarrow> NetClient \<Rightarrow> NetClient" where
  "onopen k c =
     send (HelloMsg (so_name (sockets c ! k))) ((set_readyState k OPEN c)\<lparr>connecting := False\<rparr>)"

text \<open>\<open>ws.onclose\<close> of the socket at \<open>k\<close>, which has closed.\<close>

definition onclose :: "nat \<Rightarrow> NetClient \<Rightarrow> NetClient" where
  "onclose k c = (set_readyState k CLOSED c)\<lparr>connecting := False, nc_ws := None\<rparr>"

text \<open>\<open>close()\<close>: \<open>this.ws.close()\<close> puts an open or connecting socket into closing.\<close>

definition close :: "NetClient \<Rightarrow> NetClient" where
  "close c =
     (let c1 = (case nc_ws c of
                  None \<Rightarrow> c
                | Some k \<Rightarrow>
                    if so_readyState (sockets c ! k) = OPEN
                       \<or> so_readyState (sockets c ! k) = CONNECTING
                    then set_readyState k CLOSING c else c)
      in c1\<lparr>nc_ws := None, connecting := False\<rparr>)"

text \<open>
  What can happen to a \<open>NetClient\<close>: a call of one of its methods, a callback of one of
  the sockets it created, or one of them changing its \<open>readyState\<close>. Nothing happens to a
  socket that was never created.
\<close>

datatype client_event =
    SendCursor real int int
  | Connect "string option"
  | OnOpen nat
  | OnClose nat
  | Close
  | ReadyState nat ready_state

fun client_step :: "client_event \<Rightarrow> NetClient \<Rightarrow> NetClient" where
  "client_step (SendCursor now c r) nc = sendCursor now c r nc"
| "client_step (Connect nm) nc = connect nm nc"
| "client_step (OnOpen k) nc = (if k < length (sockets nc) then onopen k nc else nc)"
| "client_step (OnClose k) nc = (if k < length (sockets nc) then onclose k nc else nc)"
| "client_step Close nc = close nc"
| "client_step (ReadyState k st) nc =
     (if k < length (sockets nc) then set_readyState k st nc else nc)"

text \<open>
  The times of the calls of \<open>sendCursor\<close> that handed a frame to the socket, in a run of
  events from a state.
\<close>

fun cursor_times :: "NetClient \<Rightarrow> client_event list \<Rightarrow> real list" where
  "cursor_times nc [] = []"
| "cursor_times nc (SendCursor now c r # es) =
     (if transmitted (sendCursor now c r nc) = transmitted nc
      then cursor_times (sendCursor now c r nc) es
      else now # cursor_times (sendCursor now c r nc) es)"
| "cursor_times nc (e # es) = cursor_times (client_step e nc) es"

section \<open>Replicated cursors (src/engine/GridRenderer.ts) and the handlers of the page\<close>

record ReplicatedCursor =
  rc_id :: string
  rc_name :: "string option"
  rc_col :: int
  rc_row :: int

text \<open>
  The fields of \<open>GridRenderer\<close> that the handlers write: the grid, the logical tile size,
  the replicated cursors, and \<open>raf\<close>, whether a frame is requested.
\<close>

record GridRenderer =
  gr_cols :: int
  gr_rows :: int
  tileCss :: int
  gr_cursors :: "ReplicatedCursor list"
  raf :: bool

text \<open>\<open>Array.prototype.findIndex\<close>; \<open>None\<close> is \<open>-1\<close>.\<close>

fun findIndex :: "('a \<Rightarrow> bool) \<Rightarrow> 'a list \<Rightarrow> nat option" where
  "findIndex P [] = None"
| "findIndex P (x # xs) = (if P x then Some 0 else map_option Suc (findIndex P xs))"

definition scheduleRender :: "GridRenderer \<Rightarrow> GridRenderer" where
  "scheduleRender g = (if raf g then g else g\<lparr>raf := True\<rparr>)"

text \<open>\<open>setGrid\<close>; what \<open>resizeToParent\<close> draws is not part of the state.\<close>

definition setGrid :: "int \<Rightarrow> int \<Rightarrow> int \<Rightarrow> GridRenderer \<Rightarrow> GridRenderer" where
  "setGrid c r tileSizeCss g =
     (if tileSizeCss \<noteq> 0 then g\<lparr>tileCss := tileSizeCss, gr_cols := c, gr_rows := r\<rparr>
      else g\<lparr>gr_cols := c, gr_rows := r\<rparr>)"

definition setReplicatedCursors :: "ReplicatedCursor list \<Rightarrow> GridRenderer \<Rightarrow> GridRenderer" where
  "setReplicatedCursors list g = scheduleRender (g\<lparr>gr_cursors := list\<rparr>)"

definition upsertReplicatedCursor :: "ReplicatedCursor \<Rightarrow> GridRenderer \<Rightarrow> GridRenderer" where
  "upsertReplicatedCursor c g =
     scheduleRender
       (case findIndex (\<lambda>x. rc_id x = rc_id c) (gr_cursors g) of
          Some i \<Rightarrow> g\<lparr>gr_cursors := (gr_cursors g)[i := c]\<rparr>
        | None \<Rightarrow> g\<lparr>gr_cursors := gr_cursors g @ [c]\<rparr>)"

definition removeReplicatedCursor :: "string \<Rightarrow> GridRenderer \<Rightarrow> GridRenderer" where
  "removeReplicatedCursor ident g =
     scheduleRender (g\<lparr>gr_cursors := filter (\<lambda>c. rc_id c \<noteq> ident) (gr_cursors g)\<rparr>)"

datatype status = connecting_status | online | offline

text \<open>The page: \<open>youRef.current\<close>, the renderer and the connection status.\<close>

record App =
  you :: "string option"
  renderer :: GridRenderer
  app_status :: status

text \<open>The state after the effect has run: \<open>renderer.setGrid(40, 24, 32)\<close>, no id yet.\<close>

definition App_new :: App where
  "App_new =
     \<lparr>you = None,
      renderer = \<lparr>gr_cols = 40, gr_rows = 24, tileCss = 32, gr_cursors = [], raf = False\<rparr>,
      app_status = connecting_status\<rparr>"

definition onWelcome :: "string \<Rightarrow> Grid \<Rightarrow> App \<Rightarrow> App" where
  "onWelcome yourId g a =
     a\<lparr>you := Some yourId,
       renderer := setGrid (cols g) (rows g) (tileSize g) (renderer a),
       app_status := online\<rparr>"

definition onPlayersSnapshot :: "Player list \<Rightarrow> App \<Rightarrow> App" where
  "onPlayersSnapshot players a =
     (let list =
            map (\<lambda>p. \<lparr>rc_id = p_id p, rc_name = p_name p,
                       rc_col = col (the (p_cursor p)), rc_row = row (the (p_cursor p))\<rparr>)
              (filter (\<lambda>p. p_cursor p \<noteq> None \<and> Some (p_id p) \<noteq> you a) players)
      in a\<lparr>renderer := setReplicatedCursors list (renderer a)\<rparr>)"

definition onPlayerUpdate :: "Player \<Rightarrow> App \<Rightarrow> App" where
  "onPlayerUpdate p a =
     (if Some (p_id p) = you a then a
      else (case p_cursor p of
              Some c \<Rightarrow>
                a\<lparr>renderer :=
                    upsertReplicatedCursor
                      \<lparr>rc_id = p_id p, rc_name = p_name p, rc_col = col c, rc_row = row c\<rparr>
                      (renderer a)\<rparr>
            | None \<Rightarrow> a))"

definition onPlayerLeave :: "string \<Rightarrow> App \<Rightarrow> App" where
  "onPlayerLeave ident a = a\<lparr>renderer := removeReplicatedCursor ident (renderer a)\<rparr>"

definition onDisconnect :: "App \<Rightarrow> App" where
  "onDisconnect a = a\<lparr>app_status := offline\<rparr>"

text \<open>The switch of \<open>ws.onmessage\<close> over a message that passed the schema.\<close>

fun dispatch :: "ServerToClient \<Rightarrow> App \<Rightarrow> App" where
  "dispatch (WelcomeMsg yourId g) a = onWelcome yourId g a"
| "dispatch (PlayersSnapshotMsg players) a = onPlayersSnapshot players a"
| "dispatch (PlayerUpdateMsg p) a = onPlayerUpdate p a"
| "dispatch (PlayerLeaveMsg ident) a = onPlayerLeave ident a"

text \<open>The handlers run in the order the messages arrive.\<close>

fun deliver :: "ServerToClient list \<Rightarrow> App \<Rightarrow> App" where
  "deliver [] a = a"
| "deliver (m # ms) a = deliver ms (dispatch m a)"

text \<open>
  The order a connection delivers: every \<open>welcome\<close> carries the id \<open>me\<close>, and a
  \<open>players\<close> or \<open>playerUpdate\<close> comes only after a \<open>welcome\<close> (\<open>seen\<close>).
\<close>

fun welcome_first :: "string \<Rightarrow> bool \<Rightarrow> ServerToClient list \<Rightarrow> bool" where
  "welcome_first me seen [] = True"
| "welcome_first me seen (WelcomeMsg yourId g # ms) = (yourId = me \<and> welcome_first me True ms)"
| "welcome_first me seen (PlayersSnapshotMsg players # ms) = (seen \<and> welcome_first me seen ms)"
| "welcome_first me seen (PlayerUpdateMsg p # ms) = (seen \<and> welcome_first me seen ms)"
| "welcome_first me seen (PlayerLeaveMsg ident # ms) = welcome_first me seen ms"

text \<open>A client whose socket has opened, and a run of messages one connection receives.\<close>

definition opened :: NetClient where
  "opened = onopen 0 (connect (Some ''Ann'') NetClient_new)"

definition example_messages :: "ServerToClient list" where
  "example_messages =
     [WelcomeMsg ''a1'' GRID,
      PlayersSnapshotMsg
        [\<lparr>p_id = ''a1'', p_name = Some ''Ann'', p_cursor = Some \<lparr>col = 5, row = 3\<rparr>, p_lastSeen = 7\<rparr>,
         \<lparr>p_id = ''b2'', p_name = None, p_cursor = Some \<lparr>col = 1, row = 1\<rparr>, p_lastSeen = 8\<rparr>,
         \<lparr>p_id = ''c3'', p_name = None, p_cursor = None, p_lastSeen = 9\<rparr>],
      PlayerUpdateMsg
        \<lparr>p_id = ''a1'', p_name = Some ''Ann'', p_cursor = Some \<lparr>col = 6, row = 3\<rparr>, p_lastSeen = 10\<rparr>,
      PlayerUpdateMsg
        \<lparr>p_id = ''c3'', p_name = Some ''Cy'', p_cursor = None, p_lastSeen = 11\<rparr>,
      PlayerUpdateMsg
        \<lparr>p_id = ''b2'', p_name = None, p_cursor = Some \<lparr>col = 2, row = 1\<rparr>, p_lastSeen = 12\<rparr>]"

section \<open>Terrain seed and generator (src/engine/prng.ts)\<close>

text \<open>
  The bitwise operators and \<open>Math.imul\<close> work on the low 32 bits of their operands, so
  their results are \<open>32 word\<close>s; \<open>ToInt32\<close> of an integer-valued number is
  \<open>word_of_int\<close>, and \<open>h >>> 0\<close> reads the word unsigned.
\<close>

definition imul :: "32 word \<Rightarrow> 32 word \<Rightarrow> 32 word" where
  "imul a b = a * b"

definition hash2D :: "int \<Rightarrow> int \<Rightarrow> int \<Rightarrow> nat" where
  "hash2D x y salt =
     (let h0 = (2166136261 :: 32 word) XOR word_of_int salt;
          h1 = imul (h0 XOR word_of_int x) 16777619;
          h2 = imul (h1 XOR word_of_int y) 16777619
      in unat h2)"

text \<open>
  \<open>mulberry32(seed)\<close> returns a closure over \<open>t\<close>, which starts as \<open>seed >>> 0\<close>. The
  state of the closure is \<open>t\<close>, a number that \<open>t += 0x6d2b79f5\<close> increases without
  wrapping; it is exact as long as it stays below \<open>2 ^ 53\<close>.
\<close>

definition mulberry32 :: "int \<Rightarrow> nat" where
  "mulberry32 seed = nat (seed mod 2 ^ 32)"

text \<open>
  One call of the closure: the new \<open>t\<close> and the word \<open>(r ^ (r >>> 14)) >>> 0\<close>; the number
  returned is that word divided by 4294967296 (\<open>unit_interval\<close>).
\<close>

definition rnd :: "nat \<Rightarrow> nat \<times> 32 word" where
  "rnd t =
     (let t' = t + 0x6d2b79f5;
          w = (word_of_nat t' :: 32 word);
          r = imul (w XOR drop_bit 15 w) (1 OR w);
          r' = r XOR (r + imul (r XOR drop_bit 7 r) (61 OR r))
      in (t', r' XOR drop_bit 14 r'))"

definition unit_interval :: "32 word \<Rightarrow> real" where
  "unit_interval u = real (unat u) / 4294967296"

text \<open>The first \<open>n\<close> numbers a closure in state \<open>t\<close> returns.\<close>

fun rnd_sequence :: "nat \<Rightarrow> nat \<Rightarrow> real list" where
  "rnd_sequence t 0 = []"
| "rnd_sequence t (Suc n) = unit_interval (snd (rnd t)) # rnd_sequence (fst (rnd t)) n"

section \<open>Terrain layer (drawBaseTerrain of src/engine/GridRenderer.ts)\<close>

text \<open>
  What \<open>drawBaseTerrain\<close> draws for one tile: the rectangle at \<open>(td_x, td_y)\<close>, the seed,
  the three components of its \<open>hsl\<close> fill and the places of its six speckles. The side
  of a speckle, \<open>1 / dpr\<close>, and the gradient are the same for every tile and are left
  out. \<open>hash2D\<close>, \<open>rnd\<close> and \<open>draw_tile\<close> are functions: equal arguments give equal
  results.
\<close>

record TileDraw =
  td_x :: int
  td_y :: int
  td_seed :: nat
  td_hDeg :: int
  td_s :: int
  td_l :: int
  td_speckles :: "(real \<times> real) list"

text \<open>The loop \<open>for (let i = 0; i < 6; i++)\<close> over the speckles, \<open>n\<close> rounds to go.\<close>

fun speckles :: "nat \<Rightarrow> nat \<Rightarrow> int \<Rightarrow> int \<Rightarrow> int \<Rightarrow> (real \<times> real) list" where
  "speckles 0 t x y tc = []"
| "speckles (Suc n) t x y tc =
     (let (t1, u1) = rnd t;
          (t2, u2) = rnd t1
      in (real_of_int x + unit_interval u1 * real_of_int tc,
          real_of_int y + unit_interval u2 * real_of_int tc) # speckles n t2 x y tc)"

text \<open>The body of the two loops for the tile in column \<open>c\<close> and row \<open>r\<close>.\<close>

definition draw_tile :: "int \<Rightarrow> int \<Rightarrow> int \<Rightarrow> TileDraw" where
  "draw_tile tc c r =
     (let x = c * tc;
          y = r * tc;
          seed = hash2D c r 9001;
          t0 = mulberry32 (int seed);
          (t1, u1) = rnd t0;
          hDeg = 112 + \<lfloor>unit_interval u1 * 10\<rfloor> - 5;
          (t2, u2) = rnd t1;
          s = 45 + \<lfloor>unit_interval u2 * 10\<rfloor> - 5;
          (t3, u3) = rnd t2;
          l = 44 + \<lfloor>unit_interval u3 * 10\<rfloor> - 5
      in \<lparr>td_x = x, td_y = y, td_seed = seed, td_hDeg = hDeg, td_s = s, td_l = l,
          td_speckles = speckles 6 t3 x y tc\<rparr>)"

text \<open>The inner loop \<open>for (let c = 0; c < this.cols; c++)\<close>, from \<open>c\<close> on.\<close>

function cols_loop :: "int \<Rightarrow> int \<Rightarrow> int \<Rightarrow> int \<Rightarrow> TileDraw list" where
  "cols_loop ncols tc r c =
     (if c < ncols then draw_tile tc c r # cols_loop ncols tc r (c + 1) else [])"
  by pat_completeness auto
termination
  by (relation "measure (\<lambda>(ncols, tc, r, c). nat (ncols - c))") auto

text \<open>The outer loop \<open>for (let r = 0; r < this.rows; r++)\<close>, from \<open>r\<close> on.\<close>

function rows_loop :: "int \<Rightarrow> int \<Rightarrow> int \<Rightarrow> int \<Rightarrow> TileDraw list" where
  "rows_loop ncols nrows tc r =
     (if r < nrows then cols_loop ncols tc r 0 @ rows_loop ncols nrows tc (r + 1) else [])"
  by pat_completeness auto
termination
  by (relation "measure (\<lambda>(ncols, nrows, tc, r). nat (nrows - r))") auto

definition drawBaseTerrain :: "GridRenderer \<Rightarrow> TileDraw list" where
  "drawBaseTerrain g = rows_loop (gr_cols g) (gr_rows g) (tileCss g) 0"

text \<open>The recursive equations of the two loops are unfolded by hand.\<close>

declare cols_loop.simps [simp del] rows_loop.simps [simp del]

text \<open>A second renderer: another grid, another tile size, a cursor and a frame requested.\<close>

definition small_renderer :: GridRenderer where
  "small_renderer =
     \<lparr>gr_cols = 7, gr_rows = 5, tileCss = 16,
      gr_cursors = [\<lparr>rc_id = ''b2'', rc_name = None, rc_col = 1, rc_row = 1\<rparr>], raf = True\<rparr>"

section \<open>Properties of the server\<close>

lemma modify_frame:
  "clients (modify r f s) = clients s"
  "admins (modify r f s) = admins s"
  "wire (modify r f s) = wire s"
  by (simp_all add: modify_def)

lemma modify_simps:
  "heap (modify r f s) = (heap s)[r := f (heap s ! r)]"
  "clients (modify r f s) = clients s"
  "admins (modify r f s) = admins s"
  "wire (modify r f s) = wire s"
  by (simp_all add: modify_def)

lemma broadcast_simps:
  "heap (broadcast msg e s) = heap s"
  "clients (broadcast msg e s) = clients s"
  "admins (broadcast msg e s) = admins s"
  "wire (broadcast msg e s) = wire s @ broadcast_loop (heap s) msg e (clients s)"
  by (simp_all add: broadcast_def)

lemma game_sends_append: "game_sends (xs @ ys) = game_sends xs @ game_sends ys"
  by (induction xs rule: game_sends.induct) simp_all

lemma game_sends_admin: "game_sends (map (\<lambda>a. AdminSend a x) as) = []"
  by (induction as) simp_all

lemma adminBroadcast_simps:
  "heap (adminBroadcast s) = heap s"
  "clients (adminBroadcast s) = clients s"
  "admins (adminBroadcast s) = admins s"
  "game_sends (wire (adminBroadcast s)) = game_sends (wire s)"
  by (simp_all add: adminBroadcast_def Let_def game_sends_append game_sends_admin)

lemma adminBroadcast_wire:
  "\<exists>as x. wire (adminBroadcast s) = wire s @ map (\<lambda>a. AdminSend a x) as"
  by (auto simp: adminBroadcast_def Let_def)

lemma game_sends_broadcast_loop:
  "game_sends (broadcast_loop h msg e cl) =
     map (\<lambda>kv. (snd kv, msg)) (filter (\<lambda>kv. Some (fst kv) \<noteq> e \<and> cs_ws (h ! snd kv) = OPEN) cl)"
  by (induction h msg e cl rule: broadcast_loop.induct) simp_all

lemma new_wire_append: "wire s' = wire s @ xs \<Longrightarrow> new_wire s s' = xs"
  by (simp add: new_wire_def)

lemma new_game_sends_adminBroadcast:
  "wire s' = wire s @ xs \<Longrightarrow> game_sends (new_wire s (adminBroadcast s')) = game_sends xs"
proof -
  assume a: "wire s' = wire s @ xs"
  obtain as x where "wire (adminBroadcast s') = wire s' @ map (\<lambda>a. AdminSend a x) as"
    using adminBroadcast_wire by blast
  with a have "new_wire s (adminBroadcast s') = xs @ map (\<lambda>a. AdminSend a x) as"
    by (simp add: new_wire_def)
  then show ?thesis by (simp add: game_sends_append game_sends_admin)
qed

lemma safeParse_cursor:
  assumes "get_key obj ''kind'' = Some (JStr ''cursor'')"
    and "get_key obj ''col'' = Some (JNum (Integer c))" and "0 \<le> c"
    and "get_key obj ''row'' = Some (JNum (Integer rw))" and "0 \<le> rw"
  shows "ClientToServer_safeParse (JObj obj) = Some (CursorMsg c rw)"
  using assms
  by (simp add: ClientToServer_safeParse_def CursorMsg_safeParse_def nonnegative_int_schema_def)

lemma safeParse_cursor_nonneg:
  "ClientToServer_safeParse msg = Some (CursorMsg c rw) \<Longrightarrow> 0 \<le> c \<and> 0 \<le> rw"
  by (auto simp: ClientToServer_safeParse_def CursorMsg_safeParse_def HelloMsg_safeParse_def
      PingMsg_safeParse_def nonnegative_int_schema_def
      split: json.splits option.splits if_splits js_number.splits)

lemma safeParse_hello_name:
  "ClientToServer_safeParse msg = Some (HelloMsg nm) \<Longrightarrow> map_option (take 24) nm = nm"
  by (auto simp: ClientToServer_safeParse_def CursorMsg_safeParse_def HelloMsg_safeParse_def
      PingMsg_safeParse_def name_schema_def
      split: json.splits option.splits if_splits js_number.splits)

lemma on_message_invalid:
  "invalid_frame buf \<Longrightarrow> on_message r t buf s = modify r (\<lambda>c. c\<lparr>cs_lastSeen := t\<rparr>) s"
  by (simp add: on_message_def invalid_frame_def split: option.splits)

lemma on_message_ping:
  "ClientToServer_safeParse msg = Some (PingMsg x) \<Longrightarrow>
   on_message r t (Some msg) s = modify r (\<lambda>c. c\<lparr>cs_lastSeen := t\<rparr>) s"
  by (simp add: on_message_def)

lemma on_message_cursor:
  assumes "ClientToServer_safeParse msg = Some (CursorMsg c rw)"
  shows "on_message r t (Some msg) s =
     adminBroadcast (broadcast
        (PlayerUpdateMsg (summary (heap (modify r (\<lambda>st. st\<lparr>cs_cursor := Some \<lparr>col = max 0 (min 39 c), row = max 0 (min 23 rw)\<rparr>\<rparr>)
                 (modify r (\<lambda>c. c\<lparr>cs_lastSeen := t\<rparr>) s)) ! r)))
        (Some (cs_id (heap (modify r (\<lambda>st. st\<lparr>cs_cursor := Some \<lparr>col = max 0 (min 39 c), row = max 0 (min 23 rw)\<rparr>\<rparr>)
                 (modify r (\<lambda>c. c\<lparr>cs_lastSeen := t\<rparr>) s)) ! r)))
        (modify r (\<lambda>st. st\<lparr>cs_cursor := Some \<lparr>col = max 0 (min 39 c), row = max 0 (min 23 rw)\<rparr>\<rparr>)
                 (modify r (\<lambda>c. c\<lparr>cs_lastSeen := t\<rparr>) s)))"
  using assms by (simp add: on_message_def GRID_def Let_def)

lemma on_message_hello:
  assumes "ClientToServer_safeParse msg = Some (HelloMsg nm)"
  shows "on_message r t (Some msg) s =
     adminBroadcast (broadcast
        (PlayerUpdateMsg (summary (heap (modify r (\<lambda>c. c\<lparr>cs_name := map_option (take 24) nm\<rparr>)
                 (modify r (\<lambda>c. c\<lparr>cs_lastSeen := t\<rparr>) s)) ! r)))
        None
        (modify r (\<lambda>c. c\<lparr>cs_name := map_option (take 24) nm\<rparr>)
                 (modify r (\<lambda>c. c\<lparr>cs_lastSeen := t\<rparr>) s)))"
  using assms by (simp add: on_message_def Let_def)

text \<open>
  Claim C1. A cursor frame whose \<open>col\<close> and \<open>row\<close> are non-negative integers passes the
  schema, whatever their size. The handler stores \<open>min col 39\<close> and \<open>min row 23\<close>, which lie
  in \<open>[0, cols - 1]\<close> and \<open>[0, rows - 1]\<close>, and every game message it sends in that step
  is a \<open>playerUpdate\<close> that carries the stored cursor. The frame \<open>cursor{col:999,row:999}\<close>
  gives \<open>{col:39,row:23}\<close>.
\<close>
theorem cursor_clamped:
  assumes "r < length (heap s)"
    and "get_key obj ''kind'' = Some (JStr ''cursor'')"
    and "get_key obj ''col'' = Some (JNum (Integer c))" and "0 \<le> c"
    and "get_key obj ''row'' = Some (JNum (Integer rw))" and "0 \<le> rw"
  shows "ClientToServer_safeParse (JObj obj) = Some (CursorMsg c rw)
    \<and> cs_cursor (heap (on_message r t (Some (JObj obj)) s) ! r)
        = Some \<lparr>col = min c (cols GRID - 1), row = min rw (rows GRID - 1)\<rparr>
    \<and> 0 \<le> min c (cols GRID - 1) \<and> min c (cols GRID - 1) \<le> cols GRID - 1
    \<and> 0 \<le> min rw (rows GRID - 1) \<and> min rw (rows GRID - 1) \<le> rows GRID - 1
    \<and> list_all (\<lambda>xm. snd xm = PlayerUpdateMsg
           \<lparr>p_id = cs_id (heap s ! r), p_name = cs_name (heap s ! r),
             p_cursor = Some \<lparr>col = min c (cols GRID - 1), row = min rw (rows GRID - 1)\<rparr>,
             p_lastSeen = t\<rparr>)
         (game_sends (new_wire s (on_message r t (Some (JObj obj)) s)))"
proof -
  have p: "ClientToServer_safeParse (JObj obj) = Some (CursorMsg c rw)"
    using assms by (simp add: safeParse_cursor)
  have m: "max 0 (min 39 c) = min c 39" "max 0 (min 23 rw) = min rw 23"
    using assms by simp_all
  show ?thesis
    using assms(1,4,6)
    by (simp add: p on_message_cursor [OF p] adminBroadcast_simps broadcast_simps modify_simps
        new_game_sends_adminBroadcast game_sends_broadcast_loop summary_def GRID_def m
        list_all_iff)
qed

theorem cursor_clamped_witness:
  "cs_cursor (heap (on_message 0 5 (Some (cursor_frame 999 999))
       (on_connection ''b2'' 2 (on_connection ''a1'' 1 initial_server))) ! 0)
     = Some \<lparr>col = 39, row = 23\<rparr>
   \<and> game_sends (new_wire (on_connection ''b2'' 2 (on_connection ''a1'' 1 initial_server))
        (on_message 0 5 (Some (cursor_frame 999 999))
          (on_connection ''b2'' 2 (on_connection ''a1'' 1 initial_server))))
     = [(1, PlayerUpdateMsg \<lparr>p_id = ''a1'', p_name = None,
           p_cursor = Some \<lparr>col = 39, row = 23\<rparr>, p_lastSeen = 5\<rparr>)]"
proof -
  let ?s = "on_connection ''b2'' 2 (on_connection ''a1'' 1 initial_server)"
  have h: "heap ?s = [\<lparr>cs_id = ''a1'', cs_name = None, cs_cursor = None, cs_lastSeen = 1, cs_ws = OPEN\<rparr>,
       \<lparr>cs_id = ''b2'', cs_name = None, cs_cursor = None, cs_lastSeen = 2, cs_ws = OPEN\<rparr>]"
    by (simp add: on_connection_def initial_server_def Let_def adminBroadcast_def)
  have c: "clients ?s = [(''a1'', 0), (''b2'', 1)]"
    by (simp add: on_connection_def initial_server_def Let_def adminBroadcast_def)
  have r: "0 < length (heap ?s)" by (simp add: h)
  have k: "get_key [(''kind'', JStr ''cursor''), (''col'', JNum (Integer 999)), (''row'', JNum (Integer 999))] ''kind'' = Some (JStr ''cursor'')"
       "get_key [(''kind'', JStr ''cursor''), (''col'', JNum (Integer 999)), (''row'', JNum (Integer 999))] ''col'' = Some (JNum (Integer 999))"
       "get_key [(''kind'', JStr ''cursor''), (''col'', JNum (Integer 999)), (''row'', JNum (Integer 999))] ''row'' = Some (JNum (Integer 999))"
    by (simp_all add: get_key_def)
  note w = cursor_clamped [OF r k(1) k(2) _ k(3), of 5, simplified, folded cursor_frame_def]
  have g: "game_sends (new_wire ?s (on_message 0 5 (Some (cursor_frame 999 999)) ?s))
     = [(1, PlayerUpdateMsg \<lparr>p_id = ''a1'', p_name = None,
           p_cursor = Some \<lparr>col = 39, row = 23\<rparr>, p_lastSeen = 5\<rparr>)]"
    using w
    by (simp add: on_message_cursor adminBroadcast_simps broadcast_simps modify_simps
        new_game_sends_adminBroadcast game_sends_broadcast_loop summary_def h c)
  show ?thesis using w g by (simp add: GRID_def)
qed


lemma heap_length_on_message: "length (heap (on_message r t buf s)) = length (heap s)"
  by (simp add: on_message_def Let_def adminBroadcast_simps broadcast_simps modify_simps
      split: option.splits ClientToServer.splits)

lemma clients_on_message: "clients (on_message r t buf s) = clients s"
  by (simp add: on_message_def Let_def adminBroadcast_simps broadcast_simps modify_simps
      split: option.splits ClientToServer.splits)

lemma admins_on_message: "admins (on_message r t buf s) = admins s"
  by (simp add: on_message_def Let_def adminBroadcast_simps broadcast_simps modify_simps
      split: option.splits ClientToServer.splits)

lemma heap_on_message_other:
  "r' \<noteq> r \<Longrightarrow> heap (on_message r t buf s) ! r' = heap s ! r'"
  by (simp add: on_message_def Let_def adminBroadcast_simps broadcast_simps modify_simps
      split: option.splits ClientToServer.splits)

lemma heap_on_message_same:
  "r < length (heap s) \<Longrightarrow>
   cs_id (heap (on_message r t buf s) ! r) = cs_id (heap s ! r)
   \<and> cs_ws (heap (on_message r t buf s) ! r) = cs_ws (heap s ! r)
   \<and> cs_lastSeen (heap (on_message r t buf s) ! r) = t"
  by (simp add: on_message_def Let_def adminBroadcast_simps broadcast_simps modify_simps
      split: option.splits ClientToServer.splits)

text \<open>
  Claim C5. A frame that \<open>JSON.parse\<close> or the schema refuses makes the handler send
  nothing, neither to a game socket nor to an admin socket; the store, the name, the cursor
  and the socket state of the participant stay as they were. Its \<open>lastSeen\<close> becomes the
  time of the message, as it does for every frame (\<open>any\<close>), valid or not.
\<close>
theorem invalid_frame_dropped:
  assumes "r < length (heap s)" and "invalid_frame buf"
  shows "wire (on_message r t buf s) = wire s
    \<and> clients (on_message r t buf s) = clients s
    \<and> admins (on_message r t buf s) = admins s
    \<and> heap (on_message r t buf s) = (heap s)[r := (heap s ! r)\<lparr>cs_lastSeen := t\<rparr>]
    \<and> cs_name (heap (on_message r t buf s) ! r) = cs_name (heap s ! r)
    \<and> cs_cursor (heap (on_message r t buf s) ! r) = cs_cursor (heap s ! r)
    \<and> cs_ws (heap (on_message r t buf s) ! r) = cs_ws (heap s ! r)
    \<and> cs_lastSeen (heap (on_message r t buf s) ! r) = t
    \<and> cs_lastSeen (heap (on_message r t any s) ! r) = t"
  using assms heap_on_message_same [of r s t any]
  by (simp add: on_message_invalid modify_simps)

lemma invalid_not_object:
  "\<forall>obj. msg \<noteq> JObj obj \<Longrightarrow> invalid_frame (Some msg)"
  by (cases msg) (auto simp: invalid_frame_def ClientToServer_safeParse_def)

lemma invalid_unknown_kind:
  "get_key obj ''kind'' \<noteq> Some (JStr ''hello'') \<Longrightarrow>
   get_key obj ''kind'' \<noteq> Some (JStr ''cursor'') \<Longrightarrow>
   get_key obj ''kind'' \<noteq> Some (JStr ''ping'') \<Longrightarrow> invalid_frame (Some (JObj obj))"
  by (auto simp: invalid_frame_def ClientToServer_safeParse_def
      split: option.splits json.splits)

lemma invalid_wrong_version:
  "get_key obj ''kind'' = Some (JStr ''hello'') \<Longrightarrow>
   get_key obj ''version'' \<noteq> Some (JNum (Integer 1)) \<Longrightarrow> invalid_frame (Some (JObj obj))"
  by (simp add: invalid_frame_def ClientToServer_safeParse_def HelloMsg_safeParse_def)

lemma invalid_name:
  "get_key obj ''kind'' = Some (JStr ''hello'') \<Longrightarrow> get_key obj ''name'' = Some v \<Longrightarrow>
   (\<And>n. v = JStr n \<Longrightarrow> n = [] \<or> 24 < length n) \<Longrightarrow> invalid_frame (Some (JObj obj))"
  by (cases v)
    (auto simp: invalid_frame_def ClientToServer_safeParse_def HelloMsg_safeParse_def
      name_schema_def)


lemma invalid_cursor_field:
  "get_key obj ''kind'' = Some (JStr ''cursor'') \<Longrightarrow>
   nonnegative_int_schema (get_key obj ''col'') = None
   \<or> nonnegative_int_schema (get_key obj ''row'') = None \<Longrightarrow>
   invalid_frame (Some (JObj obj))"
  by (auto simp: invalid_frame_def ClientToServer_safeParse_def CursorMsg_safeParse_def
      split: option.splits)

lemma nonnegative_int_schema_None:
  "nonnegative_int_schema v = None \<longleftrightarrow> (\<forall>n. v = Some (JNum (Integer n)) \<longrightarrow> n < 0)"
  by (auto simp: nonnegative_int_schema_def split: option.splits json.splits js_number.splits)

lemma store_ok_iff:
  "store_ok s \<longleftrightarrow>
     distinct (map fst (clients s))
     \<and> (\<forall>kv \<in> set (clients s). snd kv < length (heap s) \<and> cs_id (heap s ! snd kv) = fst kv)
     \<and> (\<forall>x < length (heap s). cs_ws (heap s ! x) = OPEN \<longrightarrow> (cs_id (heap s ! x), x) \<in> set (clients s))
     \<and> (\<forall>x m. GameSend x m \<in> set (wire s) \<longrightarrow> x < length (heap s))"
proof -
  have "(\<forall>e \<in> set (wire s). case e of GameSend x m \<Rightarrow> x < length (heap s) | AdminSend a m \<Rightarrow> True)
      \<longleftrightarrow> (\<forall>x m. GameSend x m \<in> set (wire s) \<longrightarrow> x < length (heap s))"
    by (auto split: sent.splits)
  then show ?thesis
    by (auto simp: store_ok_def list_all_iff)
qed





lemma field_modify:
  assumes "\<And>c. g (f c) = g c"
  shows "g (heap (modify r f s) ! x) = g (heap s ! x)"
proof (cases "r < length (heap s)")
  case True
  then show ?thesis using assms by (simp add: modify_simps nth_list_update)
next
  case False
  then show ?thesis by (simp add: modify_simps list_update_beyond)
qed

lemma cs_ws_on_message:
  "cs_ws (heap (on_message r t buf s) ! x) = cs_ws (heap s ! x)"
  by (simp add: on_message_def Let_def adminBroadcast_simps broadcast_simps
      field_modify [where g = cs_ws] split: option.splits ClientToServer.splits)

lemma cs_id_on_message:
  "cs_id (heap (on_message r t buf s) ! x) = cs_id (heap s ! x)"
  by (simp add: on_message_def Let_def adminBroadcast_simps broadcast_simps
      field_modify [where g = cs_id] split: option.splits ClientToServer.splits)

lemma new_game_sends_step:
  assumes "wire s2 = wire s"
  shows "game_sends (new_wire s (adminBroadcast (broadcast m e s2)))
       = map (\<lambda>kv. (snd kv, m))
           (filter (\<lambda>kv. Some (fst kv) \<noteq> e \<and> cs_ws (heap s2 ! snd kv) = OPEN) (clients s2))"
proof -
  have "wire (broadcast m e s2) = wire s @ broadcast_loop (heap s2) m e (clients s2)"
    using assms by (simp add: broadcast_simps)
  then have "game_sends (new_wire s (adminBroadcast (broadcast m e s2)))
      = game_sends (broadcast_loop (heap s2) m e (clients s2))"
    by (rule new_game_sends_adminBroadcast)
  then show ?thesis by (simp add: game_sends_broadcast_loop)
qed

lemma game_sends_on_message_cursor:
  assumes p: "ClientToServer_safeParse msg = Some (CursorMsg c rw)"
  shows "game_sends (new_wire s (on_message r t (Some msg) s)) =
     map (\<lambda>kv. (snd kv, PlayerUpdateMsg (summary (heap (on_message r t (Some msg) s) ! r))))
       (filter (\<lambda>kv. fst kv \<noteq> cs_id (heap s ! r) \<and> cs_ws (heap s ! snd kv) = OPEN) (clients s))"
  by (simp add: on_message_cursor [OF p] new_game_sends_step modify_frame
      adminBroadcast_simps broadcast_simps
      field_modify [where g = cs_ws] field_modify [where g = cs_id])

lemma game_sends_on_message_hello:
  assumes p: "ClientToServer_safeParse msg = Some (HelloMsg nm)"
  shows "game_sends (new_wire s (on_message r t (Some msg) s)) =
     map (\<lambda>kv. (snd kv, PlayerUpdateMsg (summary (heap (on_message r t (Some msg) s) ! r))))
       (filter (\<lambda>kv. cs_ws (heap s ! snd kv) = OPEN) (clients s))"
  by (simp add: on_message_hello [OF p] new_game_sends_step modify_frame
      adminBroadcast_simps broadcast_simps
      field_modify [where g = cs_ws] field_modify [where g = cs_id])


lemma one_client_eq:
  "on_connection ''a1'' 1 initial_server =
     \<lparr>heap = [\<lparr>cs_id = ''a1'', cs_name = None, cs_cursor = None, cs_lastSeen = 1, cs_ws = OPEN\<rparr>],
      clients = [(''a1'', 0)], admins = [],
      wire = [GameSend 0 (WelcomeMsg ''a1'' GRID),
              GameSend 0 (PlayersSnapshotMsg
                [\<lparr>p_id = ''a1'', p_name = None, p_cursor = None, p_lastSeen = 1\<rparr>])]\<rparr>"
  by (simp add: on_connection_def initial_server_def Let_def adminBroadcast_def players_of_def
      summary_def)

lemma two_clients_eq:
  "two_clients =
     \<lparr>heap = [\<lparr>cs_id = ''a1'', cs_name = None, cs_cursor = None, cs_lastSeen = 1, cs_ws = OPEN\<rparr>,
              \<lparr>cs_id = ''b2'', cs_name = None, cs_cursor = None, cs_lastSeen = 2, cs_ws = OPEN\<rparr>],
      clients = [(''a1'', 0), (''b2'', 1)], admins = [],
      wire = [GameSend 0 (WelcomeMsg ''a1'' GRID),
              GameSend 0 (PlayersSnapshotMsg
                [\<lparr>p_id = ''a1'', p_name = None, p_cursor = None, p_lastSeen = 1\<rparr>]),
              GameSend 1 (WelcomeMsg ''b2'' GRID),
              GameSend 1 (PlayersSnapshotMsg
                [\<lparr>p_id = ''a1'', p_name = None, p_cursor = None, p_lastSeen = 1\<rparr>,
                 \<lparr>p_id = ''b2'', p_name = None, p_cursor = None, p_lastSeen = 2\<rparr>])]\<rparr>"
  by (simp add: two_clients_def one_client_eq)
    (simp add: on_connection_def Let_def adminBroadcast_def players_of_def summary_def)


lemma safeParse_cursor_frame:
  "0 \<le> c \<Longrightarrow> 0 \<le> r \<Longrightarrow> ClientToServer_safeParse (cursor_frame c r) = Some (CursorMsg c r)"
  by (simp add: cursor_frame_def safeParse_cursor get_key_def)

lemma safeParse_hello_frame:
  "(case nm of None \<Rightarrow> True | Some n \<Rightarrow> 1 \<le> length n \<and> length n \<le> 24) \<Longrightarrow>
   ClientToServer_safeParse (hello_frame nm) = Some (HelloMsg nm)"
  by (cases nm)
    (simp_all add: hello_frame_def ClientToServer_safeParse_def HelloMsg_safeParse_def
      name_schema_def get_key_def)


lemma in_game_sends: "(x, m) \<in> set (game_sends xs) \<longleftrightarrow> GameSend x m \<in> set xs"
  by (induction xs rule: game_sends.induct) auto



lemma Map_set_fresh: "k \<notin> fst ` set kvs \<Longrightarrow> Map_set k v kvs = kvs @ [(k, v)]"
  by (induction kvs) auto




lemma on_connection_fields:
  "heap (on_connection nid t s)
     = heap s @ [\<lparr>cs_id = nid, cs_name = None, cs_cursor = None, cs_lastSeen = t, cs_ws = OPEN\<rparr>]"
  "clients (on_connection nid t s) = Map_set nid (length (heap s)) (clients s)"
  "admins (on_connection nid t s) = admins s"
  by (simp_all add: on_connection_def Let_def adminBroadcast_simps)

lemma players_of_cong:
  "heap s' = heap s \<Longrightarrow> clients s' = clients s \<Longrightarrow> players_of s' = players_of s"
  by (simp add: players_of_def)

lemma on_connection_wire:
  "\<exists>as x. wire (on_connection nid t s)
     = wire s @ [GameSend (length (heap s)) (WelcomeMsg nid GRID),
                 GameSend (length (heap s)) (PlayersSnapshotMsg (players_of (on_connection nid t s)))]
       @ map (\<lambda>a. AdminSend a x) as"
proof -
  define ps where "ps = map (\<lambda>kv. summary ((heap s @
      [\<lparr>cs_id = nid, cs_name = None, cs_cursor = None, cs_lastSeen = t, cs_ws = OPEN\<rparr>]) ! snd kv))
      (Map_set nid (length (heap s)) (clients s))"
  define s3 where "s3 = s\<lparr>heap := heap s @
      [\<lparr>cs_id = nid, cs_name = None, cs_cursor = None, cs_lastSeen = t, cs_ws = OPEN\<rparr>],
      clients := Map_set nid (length (heap s)) (clients s),
      wire := wire s @ [GameSend (length (heap s)) (WelcomeMsg nid GRID),
                        GameSend (length (heap s)) (PlayersSnapshotMsg ps)]\<rparr>"
  have e: "on_connection nid t s = adminBroadcast s3"
    by (simp add: on_connection_def Let_def s3_def ps_def players_of_def)
  have p: "players_of (on_connection nid t s) = ps"
    by (simp add: e players_of_def adminBroadcast_simps) (simp add: s3_def ps_def)
  obtain as x where "wire (adminBroadcast s3) = wire s3 @ map (\<lambda>a. AdminSend a x) as"
    using adminBroadcast_wire by blast
  then have "wire (on_connection nid t s)
     = wire s @ [GameSend (length (heap s)) (WelcomeMsg nid GRID),
                 GameSend (length (heap s)) (PlayersSnapshotMsg (players_of (on_connection nid t s)))]
       @ map (\<lambda>a. AdminSend a x) as"
    unfolding p unfolding e by (simp add: s3_def)
  then show ?thesis by blast
qed




text \<open>
  Claim C4, as amended. The stored name after a message is the name of the message when it
  is a valid hello (absent when the hello has none), and the name stored before otherwise;
  the state objects of the other connections do not change. The name is therefore not
  immutable: every valid hello overwrites it.
\<close>
theorem name_set_by_every_hello:
  assumes "r < length (heap s)"
  shows "cs_name (heap (on_message r t buf s) ! r)
      = (case buf of
           None \<Rightarrow> cs_name (heap s ! r)
         | Some msg \<Rightarrow>
             (case ClientToServer_safeParse msg of
                Some (HelloMsg nm) \<Rightarrow> nm
              | _ \<Rightarrow> cs_name (heap s ! r)))
    \<and> (\<forall>x. x \<noteq> r \<longrightarrow> heap (on_message r t buf s) ! x = heap s ! x)"
  using assms
  by (auto simp: on_message_def Let_def adminBroadcast_simps broadcast_simps modify_simps
      safeParse_hello_name split: option.splits ClientToServer.splits)

text \<open>
  Claim C4 as stated fails: a second hello replaces the name \<open>Ann\<close> by \<open>Bob\<close>, and a
  hello without a name removes it.
\<close>

theorem name_immutable_counterexample:
  "cs_name (heap (on_message 0 2 (Some (hello_frame (Some ''Ann'')))
       (on_connection ''a1'' 1 initial_server)) ! 0) = Some ''Ann''
   \<and> cs_name (heap (on_message 0 3 (Some (hello_frame (Some ''Bob'')))
       (on_message 0 2 (Some (hello_frame (Some ''Ann'')))
         (on_connection ''a1'' 1 initial_server))) ! 0) = Some ''Bob''
   \<and> cs_name (heap (on_message 0 4 (Some (hello_frame None))
       (on_message 0 2 (Some (hello_frame (Some ''Ann'')))
         (on_connection ''a1'' 1 initial_server))) ! 0) = None"
proof -
  have a: "ClientToServer_safeParse (hello_frame (Some ''Ann'')) = Some (HelloMsg (Some ''Ann''))"
    by (simp add: safeParse_hello_frame)
  have b: "ClientToServer_safeParse (hello_frame (Some ''Bob'')) = Some (HelloMsg (Some ''Bob''))"
    by (simp add: safeParse_hello_frame)
  have n: "ClientToServer_safeParse (hello_frame None) = Some (HelloMsg None)"
    by (simp add: safeParse_hello_frame)
  show ?thesis
    by (simp add: on_message_hello [OF a] on_message_hello [OF b] on_message_hello [OF n]
        adminBroadcast_simps broadcast_simps modify_simps one_client_eq)
qed

theorem name_set_by_every_hello_witness:
  "cs_name (heap (on_message 0 3 (Some (hello_frame (Some ''Bob''))) two_clients) ! 0) = Some ''Bob''
   \<and> cs_name (heap (on_message 0 3 (Some (cursor_frame 1 1)) two_clients) ! 0) = None
   \<and> heap (on_message 0 3 (Some (hello_frame (Some ''Bob''))) two_clients) ! 1 = heap two_clients ! 1"
proof -
  have r: "0 < length (heap two_clients)" by (simp add: two_clients_eq)
  have b: "ClientToServer_safeParse (hello_frame (Some ''Bob'')) = Some (HelloMsg (Some ''Bob''))"
    by (simp add: safeParse_hello_frame)
  have c: "ClientToServer_safeParse (cursor_frame 1 1) = Some (CursorMsg 1 1)"
    by (simp add: safeParse_cursor_frame)
  show ?thesis
    using name_set_by_every_hello [OF r, of 3 "Some (hello_frame (Some ''Bob''))"]
      name_set_by_every_hello [OF r, of 3 "Some (cursor_frame 1 1)"]
    by (simp add: b c) (simp add: two_clients_eq)
qed

theorem invalid_frame_dropped_witness:
  "invalid_frame (Some (JObj [(''kind'', JStr ''hello''), (''version'', JNum (Integer 2))]))
   \<and> wire (on_message 0 9 (Some (JObj [(''kind'', JStr ''hello''), (''version'', JNum (Integer 2))]))
        two_clients) = wire two_clients
   \<and> clients (on_message 0 9 (Some (JObj [(''kind'', JStr ''hello''), (''version'', JNum (Integer 2))]))
        two_clients) = clients two_clients
   \<and> heap (on_message 0 9 (Some (JObj [(''kind'', JStr ''hello''), (''version'', JNum (Integer 2))]))
        two_clients) ! 0
     = \<lparr>cs_id = ''a1'', cs_name = None, cs_cursor = None, cs_lastSeen = 9, cs_ws = OPEN\<rparr>"
proof -
  have r: "0 < length (heap two_clients)" by (simp add: two_clients_eq)
  have i: "invalid_frame (Some (JObj [(''kind'', JStr ''hello''), (''version'', JNum (Integer 2))]))"
    by (simp add: invalid_wrong_version get_key_def)
  show ?thesis
    using invalid_frame_dropped [OF r i, of 9] i
    by (simp add: two_clients_eq)
qed

subsection \<open>The handlers keep the store well formed\<close>

lemma store_ok_initial: "store_ok initial_server"
  by (simp add: store_ok_def initial_server_def)

lemma game_sends_wire_on_connection:
  "game_sends (wire (on_connection nid t s))
     = game_sends (wire s) @ [(length (heap s), WelcomeMsg nid GRID),
         (length (heap s), PlayersSnapshotMsg (players_of (on_connection nid t s)))]"
proof -
  obtain as x where "wire (on_connection nid t s)
     = wire s @ [GameSend (length (heap s)) (WelcomeMsg nid GRID),
                 GameSend (length (heap s)) (PlayersSnapshotMsg (players_of (on_connection nid t s)))]
       @ map (\<lambda>a. AdminSend a x) as"
    using on_connection_wire by blast
  then show ?thesis by (simp add: game_sends_append game_sends_admin)
qed

lemma store_ok_pairs:
  "store_ok s \<longleftrightarrow>
     distinct (map fst (clients s))
     \<and> (\<forall>k x. (k, x) \<in> set (clients s) \<longrightarrow> x < length (heap s) \<and> cs_id (heap s ! x) = k)
     \<and> (\<forall>x. x < length (heap s) \<longrightarrow> cs_ws (heap s ! x) = OPEN \<longrightarrow> (cs_id (heap s ! x), x) \<in> set (clients s))
     \<and> (\<forall>x m. (x, m) \<in> set (game_sends (wire s)) \<longrightarrow> x < length (heap s))"
  unfolding store_ok_iff in_game_sends by force

lemma store_ok_on_connection:
  assumes ok: "store_ok s" and fresh: "nid \<notin> fst ` set (clients s)"
  shows "store_ok (on_connection nid t s)"
proof -
  let ?s' = "on_connection nid t s"
  let ?new = "\<lparr>cs_id = nid, cs_name = None, cs_cursor = None, cs_lastSeen = t, cs_ws = OPEN\<rparr>"
  have h: "heap ?s' = heap s @ [?new]" by (simp add: on_connection_fields)
  have c: "clients ?s' = clients s @ [(nid, length (heap s))]"
    using fresh by (simp add: on_connection_fields Map_set_fresh)
  have old: "distinct (map fst (clients s))"
    "\<And>k x. (k, x) \<in> set (clients s) \<Longrightarrow> x < length (heap s) \<and> cs_id (heap s ! x) = k"
    "\<And>x. x < length (heap s) \<Longrightarrow> cs_ws (heap s ! x) = OPEN \<Longrightarrow> (cs_id (heap s ! x), x) \<in> set (clients s)"
    "\<And>x m. (x, m) \<in> set (game_sends (wire s)) \<Longrightarrow> x < length (heap s)"
    using ok unfolding store_ok_pairs by blast+
  have 1: "distinct (map fst (clients ?s'))"
    using old(1) fresh by (simp add: c)
  have 2: "x < length (heap ?s') \<and> cs_id (heap ?s' ! x) = k" if "(k, x) \<in> set (clients ?s')" for k x
    using that old(2) [of k x] by (auto simp: c h nth_append)
  have 3: "(cs_id (heap ?s' ! x), x) \<in> set (clients ?s')"
    if "x < length (heap ?s')" "cs_ws (heap ?s' ! x) = OPEN" for x
    using that old(3) [of x] by (auto simp: c h nth_append less_Suc_eq)
  have 4: "x < length (heap ?s')" if "(x, m) \<in> set (game_sends (wire ?s'))" for x m
    using that old(4) [of x m] by (auto simp: game_sends_wire_on_connection h)
  show ?thesis unfolding store_ok_pairs using 1 2 3 4 by blast
qed

lemma wire_on_message_prefix: "wire (on_message r t buf s) = wire s @ new_wire s (on_message r t buf s)"
proof -
  have a: "\<exists>xs. wire (adminBroadcast (broadcast m e s2)) = wire s @ xs" if "wire s2 = wire s" for m e s2
    using that adminBroadcast_wire [of "broadcast m e s2"] by (auto simp: broadcast_simps)
  have "\<exists>xs. wire (on_message r t buf s) = wire s @ xs"
    by (auto simp: on_message_def Let_def modify_frame a split: option.splits ClientToServer.splits)
  then show ?thesis by (auto simp: new_wire_def)
qed

lemma new_game_sends_on_message:
  "(x, m) \<in> set (game_sends (new_wire s (on_message r t buf s))) \<Longrightarrow> x \<in> snd ` set (clients s)"
proof (cases buf)
  case None
  assume "(x, m) \<in> set (game_sends (new_wire s (on_message r t buf s)))"
  then show ?thesis using None by (simp add: on_message_def new_wire_def modify_frame)
next
  case (Some msg)
  assume a: "(x, m) \<in> set (game_sends (new_wire s (on_message r t buf s)))"
  show ?thesis
  proof (cases "ClientToServer_safeParse msg")
    case None
    then show ?thesis using Some a by (simp add: on_message_def new_wire_def modify_frame)
  next
    case (Some d)
    show ?thesis
    proof (cases d)
      case (HelloMsg nm)
      then show ?thesis
        using a \<open>buf = Some msg\<close> Some by (auto simp: game_sends_on_message_hello)
    next
      case (CursorMsg c rw)
      then show ?thesis
        using a \<open>buf = Some msg\<close> Some by (auto simp: game_sends_on_message_cursor)
    next
      case (PingMsg u)
      then show ?thesis
        using a \<open>buf = Some msg\<close> Some by (simp add: on_message_ping new_wire_def modify_frame)
    qed
  qed
qed

lemma store_ok_on_message:
  assumes ok: "store_ok s"
  shows "store_ok (on_message r t buf s)"
proof -
  let ?s' = "on_message r t buf s"
  have old: "distinct (map fst (clients s))"
    "\<And>k x. (k, x) \<in> set (clients s) \<Longrightarrow> x < length (heap s) \<and> cs_id (heap s ! x) = k"
    "\<And>x. x < length (heap s) \<Longrightarrow> cs_ws (heap s ! x) = OPEN \<Longrightarrow> (cs_id (heap s ! x), x) \<in> set (clients s)"
    "\<And>x m. (x, m) \<in> set (game_sends (wire s)) \<Longrightarrow> x < length (heap s)"
    using ok unfolding store_ok_pairs by blast+
  have g: "game_sends (wire ?s') = game_sends (wire s) @ game_sends (new_wire s ?s')"
    using wire_on_message_prefix [of r t buf s] by (metis game_sends_append)
  have n: "x < length (heap s)" if "(x, m) \<in> set (game_sends (new_wire s ?s'))" for x m
    using new_game_sends_on_message [OF that] old(2) by force
  have 4: "x < length (heap s)" if "(x, m) \<in> set (game_sends (wire ?s'))" for x m
    using that old(4) [of x m] n [of x m] by (auto simp: g)
  show ?thesis
    unfolding store_ok_pairs clients_on_message heap_length_on_message cs_id_on_message
      cs_ws_on_message
    using old(1,2,3) 4 by blast
qed

lemma store_ok_socket_state:
  assumes ok: "store_ok s" and st: "st \<noteq> OPEN"
  shows "store_ok (socket_state r st s)"
proof -
  have i: "cs_id (heap (socket_state r st s) ! x) = cs_id (heap s ! x)" for x
    by (simp add: socket_state_def field_modify [where g = cs_id])
  have l: "length (heap (socket_state r st s)) = length (heap s)"
    by (simp add: socket_state_def modify_simps)
  have f: "clients (socket_state r st s) = clients s" "wire (socket_state r st s) = wire s"
    by (simp_all add: socket_state_def modify_frame)
  have w: "cs_ws (heap (socket_state r st s) ! x) = OPEN \<Longrightarrow> cs_ws (heap s ! x) = OPEN"
    if "x < length (heap s)" for x
    using that st by (cases "x = r") (simp_all add: socket_state_def modify_simps)
  show ?thesis
    using ok w unfolding store_ok_pairs i l f by blast
qed

lemma store_ok_on_close:
  assumes ok: "store_ok s" and reg: "(cs_id (heap s ! r), r) \<in> set (clients s)"
    and cl: "cs_ws (heap s ! r) \<noteq> OPEN"
  shows "store_ok (on_close r s)"
proof -
  let ?s' = "on_close r s"
  let ?id = "cs_id (heap s ! r)"
  have old: "distinct (map fst (clients s))"
    "\<And>k x. (k, x) \<in> set (clients s) \<Longrightarrow> x < length (heap s) \<and> cs_id (heap s ! x) = k"
    "\<And>x. x < length (heap s) \<Longrightarrow> cs_ws (heap s ! x) = OPEN \<Longrightarrow> (cs_id (heap s ! x), x) \<in> set (clients s)"
    "\<And>x m. (x, m) \<in> set (game_sends (wire s)) \<Longrightarrow> x < length (heap s)"
    using ok unfolding store_ok_pairs by blast+
  have h: "heap ?s' = heap s" by (simp add: on_close_def Let_def adminBroadcast_simps broadcast_simps)
  have c: "clients ?s' = Map_delete ?id (clients s)"
    by (simp add: on_close_def Let_def adminBroadcast_simps broadcast_simps)
  have g: "game_sends (wire ?s') = game_sends (wire s)
      @ map (\<lambda>kv. (snd kv, PlayerLeaveMsg ?id))
          (filter (\<lambda>kv. cs_ws (heap s ! snd kv) = OPEN) (Map_delete ?id (clients s)))"
    by (simp add: on_close_def Let_def adminBroadcast_simps broadcast_simps game_sends_append
        game_sends_broadcast_loop)
  have 1: "distinct (map fst (clients ?s'))"
    using old(1) by (simp add: c Map_delete_def distinct_map_filter)
  have 2: "x < length (heap ?s') \<and> cs_id (heap ?s' ! x) = k" if "(k, x) \<in> set (clients ?s')" for k x
    using that old(2) [of k x] by (simp add: c h Map_delete_def)
  have 3: "(cs_id (heap ?s' ! x), x) \<in> set (clients ?s')"
    if x: "x < length (heap ?s')" and o: "cs_ws (heap ?s' ! x) = OPEN" for x
  proof -
    have m: "(cs_id (heap s ! x), x) \<in> set (clients s)" using old(3) [of x] x o by (simp add: h)
    have "cs_id (heap s ! x) \<noteq> ?id"
    proof
      assume e: "cs_id (heap s ! x) = ?id"
      then have "x = r" using m reg old(1) by (metis eq_key_imp_eq_value)
      then show False using o cl by (simp add: h)
    qed
    then show ?thesis using m by (simp add: c h Map_delete_def)
  qed
  have 4: "x < length (heap ?s')" if "(x, m) \<in> set (game_sends (wire ?s'))" for x m
    using that old(4) [of x m] old(2) by (auto simp: g h Map_delete_def)
  show ?thesis unfolding store_ok_pairs using 1 2 3 4 by blast
qed

section \<open>Properties of the client\<close>

lemma lastSend_other:
  "lastSend (connect nm nc) = lastSend nc"
  "lastSend (onopen k nc) = lastSend nc"
  "lastSend (onclose k nc) = lastSend nc"
  "lastSend (close nc) = lastSend nc"
  "lastSend (set_readyState k st nc) = lastSend nc"
  by (simp_all add: send_def connect_def onopen_def onclose_def close_def set_readyState_def
      Let_def split: option.splits)

lemma lastSend_client_step:
  "lastSend (client_step e nc) = (case e of SendCursor now c r \<Rightarrow>
       if now - lastSend nc < 33 then lastSend nc else now | _ \<Rightarrow> lastSend nc)"
  by (cases e) (simp_all add: lastSend_other sendCursor_def send_def)

lemma sendCursor_dropped: "now - lastSend nc < 33 \<Longrightarrow> sendCursor now c r nc = nc"
  by (simp add: sendCursor_def)

lemma ws_open_lastSend: "ws_open (nc\<lparr>lastSend := now\<rparr>) = ws_open nc"
  by (simp add: ws_open_def split: option.splits)

lemma sendCursor_passed:
  "\<not> now - lastSend nc < 33 \<Longrightarrow>
   lastSend (sendCursor now c r nc) = now
   \<and> transmitted (sendCursor now c r nc)
       = (if ws_open nc then transmitted nc @ [CursorMsg c r] else transmitted nc)"
  by (simp add: sendCursor_def send_def ws_open_lastSend)

lemma cursor_times_bound:
  "list_all (\<lambda>t. lastSend nc + 33 \<le> t) (cursor_times nc es)
   \<and> sorted_wrt (\<lambda>a b. a + 33 \<le> b) (cursor_times nc es)"
proof (induction nc es rule: cursor_times.induct)
  case (1 nc)
  then show ?case by simp
next
  case (2 nc now c r es)
  show ?case
  proof (cases "now - lastSend nc < 33")
    case True
    then show ?thesis using 2 by (simp add: sendCursor_dropped)
  next
    case False
    then have l: "lastSend (sendCursor now c r nc) = now" by (simp add: sendCursor_passed)
    have t: "list_all (\<lambda>t. now + 33 \<le> t) (cursor_times (sendCursor now c r nc) es)"
      using 2 l by (auto split: if_splits)
    have s: "sorted_wrt (\<lambda>a b. a + 33 \<le> b) (cursor_times (sendCursor now c r nc) es)"
      using 2 by (auto split: if_splits)
    have m: "list_all (\<lambda>t. lastSend nc + 33 \<le> t) (cursor_times (sendCursor now c r nc) es)"
      using t False by (auto simp: list_all_iff)
    show ?thesis using t s m False by (auto simp: list_all_iff)
  qed
qed (simp_all add: lastSend_client_step del: client_step.simps)

text \<open>
  Claim C6, as amended. The window of 33 ms is measured from \<open>lastSend\<close>, the time of the
  last call of \<open>sendCursor\<close> that passed the check, whether or not that call handed a
  frame to the socket. A call less than 33 ms after it changes nothing: no frame is sent
  and none is kept for later. A call that passes sets \<open>lastSend\<close> to its own time, and
  hands its frame to the socket only when the socket is open. In every run of events from
  every state, the calls that did send are at least 33 ms after the \<open>lastSend\<close> of the
  start and at least 33 ms apart from each other.
\<close>

theorem throttle_from_lastSend:
  "(now - lastSend nc < 33 \<longrightarrow> sendCursor now c r nc = nc)
   \<and> (\<not> now - lastSend nc < 33 \<longrightarrow>
        lastSend (sendCursor now c r nc) = now
        \<and> transmitted (sendCursor now c r nc)
            = (if ws_open nc then transmitted nc @ [CursorMsg c r] else transmitted nc))
   \<and> list_all (\<lambda>t. lastSend nc + 33 \<le> t) (cursor_times nc es)
   \<and> sorted_wrt (\<lambda>a b. a + 33 \<le> b) (cursor_times nc es)"
  using sendCursor_dropped [of now nc c r] sendCursor_passed [of now nc c r]
    cursor_times_bound [of nc es]
  by blast

lemma opened_eq:
  "opened = \<lparr>sockets = [\<lparr>so_readyState = OPEN, so_name = Some ''Ann''\<rparr>], nc_ws = Some 0,
             lastSend = 0, connecting = False, transmitted = [HelloMsg (Some ''Ann'')]\<rparr>"
  by (simp add: opened_def onopen_def connect_def NetClient_new_def send_def ws_open_def
      set_readyState_def)

theorem throttle_from_lastSend_witness:
  "sendCursor 50 2 1 (sendCursor 40 1 1 opened) = sendCursor 40 1 1 opened
   \<and> transmitted (sendCursor 73 4 1 (sendCursor 40 1 1 opened))
      = [HelloMsg (Some ''Ann''), CursorMsg 1 1, CursorMsg 4 1]
   \<and> cursor_times opened [SendCursor 40 1 1, SendCursor 50 2 1, SendCursor 73 4 1] = [40, 73]"
proof -
  have a: "sendCursor 40 1 1 opened =
      \<lparr>sockets = [\<lparr>so_readyState = OPEN, so_name = Some ''Ann''\<rparr>], nc_ws = Some 0,
       lastSend = 40, connecting = False,
       transmitted = [HelloMsg (Some ''Ann''), CursorMsg 1 1]\<rparr>"
    by (simp add: opened_eq sendCursor_def send_def ws_open_def)
  have c: "cursor_times opened [SendCursor 40 1 1, SendCursor 50 2 1, SendCursor 73 4 1] = [40, 73]"
    by (simp add: opened_eq sendCursor_def send_def ws_open_def)
  show ?thesis
    using throttle_from_lastSend [of 50 "sendCursor 40 1 1 opened" 2 1 "[]"]
      throttle_from_lastSend [of 73 "sendCursor 40 1 1 opened" 4 1 "[]"]
      c
    by (simp add: a ws_open_def)
qed

text \<open>
  Claim C6 as stated fails: a call at 100 ms with no socket sends nothing and sets
  \<open>lastSend\<close> to 100; once the socket is open, the call at 110 ms is dropped, although
  no cursor message has been sent before it.
\<close>

theorem throttle_skipped_send_counterexample:
  "transmitted (sendCursor 100 5 3 NetClient_new) = []
   \<and> lastSend (sendCursor 100 5 3 NetClient_new) = 100
   \<and> transmitted (sendCursor 110 6 3 (onopen 0 (connect None (sendCursor 100 5 3 NetClient_new))))
       = [HelloMsg None]
   \<and> cursor_times NetClient_new [SendCursor 100 5 3, Connect None, OnOpen 0, SendCursor 110 6 3] = []"
  by (simp add: sendCursor_def send_def NetClient_new_def connect_def onopen_def ws_open_def
      set_readyState_def)

text \<open>
  A close event that arrives late: the socket at 0 is given up by \<open>close()\<close>, a second
  socket is created, and the close event of the first sets \<open>this.ws\<close> to \<open>null\<close>. When the
  second socket opens, no hello is sent.
\<close>

lemma stale_close_no_hello:
  "transmitted (onopen 1 (onclose 0 (connect (Some ''Ann'') (close (connect (Some ''Ann'') NetClient_new)))))
     = []"
  by (simp add: NetClient_new_def connect_def close_def onclose_def onopen_def send_def
      ws_open_def set_readyState_def Let_def)

lemma scheduleRender_cursors: "gr_cursors (scheduleRender g) = gr_cursors g"
  by (simp add: scheduleRender_def)

lemma cursors_upsert:
  "gr_cursors (upsertReplicatedCursor c g) =
     (case findIndex (\<lambda>x. rc_id x = rc_id c) (gr_cursors g) of
        Some i \<Rightarrow> (gr_cursors g)[i := c] | None \<Rightarrow> gr_cursors g @ [c])"
  by (simp add: upsertReplicatedCursor_def scheduleRender_cursors split: option.splits)

lemma cursors_remove:
  "gr_cursors (removeReplicatedCursor i g) = filter (\<lambda>c. rc_id c \<noteq> i) (gr_cursors g)"
  by (simp add: removeReplicatedCursor_def scheduleRender_cursors)

lemma cursors_set: "gr_cursors (setReplicatedCursors l g) = l"
  by (simp add: setReplicatedCursors_def scheduleRender_cursors)

fun upsert_list :: "ReplicatedCursor \<Rightarrow> ReplicatedCursor list \<Rightarrow> ReplicatedCursor list" where
  "upsert_list c [] = [c]"
| "upsert_list c (x # xs) = (if rc_id x = rc_id c then c # xs else x # upsert_list c xs)"

lemma findIndex_upsert:
  "(case findIndex (\<lambda>x. rc_id x = rc_id c) cs of Some i \<Rightarrow> cs[i := c] | None \<Rightarrow> cs @ [c])
     = upsert_list c cs"
  by (induction cs) (auto split: option.splits)

lemma cursors_upsert_list:
  "gr_cursors (upsertReplicatedCursor c g) = upsert_list c (gr_cursors g)"
  by (simp add: cursors_upsert findIndex_upsert)

lemma upsert_list_idem: "upsert_list c (upsert_list c cs) = upsert_list c cs"
  by (induction cs) auto

lemma upsert_list_others:
  "filter (\<lambda>x. rc_id x \<noteq> rc_id c) (upsert_list c cs) = filter (\<lambda>x. rc_id x \<noteq> rc_id c) cs"
  by (induction cs) auto

lemma filter_absent_id:
  "i \<notin> rc_id ` set xs \<Longrightarrow> filter (\<lambda>x. rc_id x = i) xs = []"
  by (induction xs) auto

lemma upsert_list_same:
  "distinct (map rc_id cs) \<Longrightarrow> filter (\<lambda>x. rc_id x = rc_id c) (upsert_list c cs) = [c]"
proof (induction cs)
  case Nil
  then show ?case by simp
next
  case (Cons x xs)
  show ?case
  proof (cases "rc_id x = rc_id c")
    case True
    then have "rc_id c \<notin> rc_id ` set xs" using Cons.prems by auto
    then have "filter (\<lambda>x. rc_id x = rc_id c) xs = []"
      by (rule filter_absent_id)
    then show ?thesis using True by simp
  next
    case False
    then show ?thesis using Cons by simp
  qed
qed

lemma upsert_list_ids:
  "set (map rc_id (upsert_list c cs)) = insert (rc_id c) (set (map rc_id cs))"
  by (induction cs) auto

lemma upsert_list_distinct:
  "distinct (map rc_id cs) \<Longrightarrow> distinct (map rc_id (upsert_list c cs))"
proof (induction cs)
  case Nil
  then show ?case by simp
next
  case (Cons x xs)
  have "rc_id x \<notin> set (map rc_id (upsert_list c xs))" if "rc_id x \<noteq> rc_id c"
    using that Cons.prems unfolding upsert_list_ids by auto
  then show ?case using Cons by auto
qed

text \<open>
  Claim C7. For a collection of replicated cursors in which no id occurs twice, inserting
  the same payload twice gives the renderer that inserting it once gives; the result has
  exactly one entry with the id of the payload, the payload itself; the entries with other
  ids are the ones from before, in their order; and no id occurs twice.
\<close>
theorem upsert_idempotent:
  assumes "distinct (map rc_id (gr_cursors g))"
  shows "upsertReplicatedCursor c (upsertReplicatedCursor c g) = upsertReplicatedCursor c g
    \<and> filter (\<lambda>x. rc_id x = rc_id c)
         (gr_cursors (upsertReplicatedCursor c (upsertReplicatedCursor c g))) = [c]
    \<and> filter (\<lambda>x. rc_id x \<noteq> rc_id c)
         (gr_cursors (upsertReplicatedCursor c (upsertReplicatedCursor c g)))
       = filter (\<lambda>x. rc_id x \<noteq> rc_id c) (gr_cursors g)
    \<and> distinct (map rc_id (gr_cursors (upsertReplicatedCursor c (upsertReplicatedCursor c g))))"
proof -
  have g: "upsertReplicatedCursor c g = scheduleRender (g\<lparr>gr_cursors := upsert_list c (gr_cursors g)\<rparr>)" for g
    by (simp add: upsertReplicatedCursor_def findIndex_upsert [symmetric] split: option.splits)
  define g' where "g' = upsertReplicatedCursor c g"
  have c': "gr_cursors g' = upsert_list c (gr_cursors g)"
    by (simp add: g'_def cursors_upsert_list)
  have r': "raf g'"
    by (simp add: g'_def g scheduleRender_def)
  have "upsertReplicatedCursor c g' = scheduleRender (g'\<lparr>gr_cursors := gr_cursors g'\<rparr>)"
    by (simp add: g [of g'] c' upsert_list_idem)
  also have "\<dots> = g'" using r' by (simp add: scheduleRender_def)
  finally have 1: "upsertReplicatedCursor c (upsertReplicatedCursor c g) = upsertReplicatedCursor c g"
    by (simp add: g'_def)
  show ?thesis
    using assms
    by (simp add: 1 cursors_upsert_list upsert_list_same upsert_list_others upsert_list_distinct)
qed

theorem upsert_idempotent_witness:
  "gr_cursors (upsertReplicatedCursor \<lparr>rc_id = ''b2'', rc_name = None, rc_col = 7, rc_row = 2\<rparr>
     (upsertReplicatedCursor \<lparr>rc_id = ''b2'', rc_name = None, rc_col = 7, rc_row = 2\<rparr>
       \<lparr>gr_cols = 40, gr_rows = 24, tileCss = 32,
         gr_cursors = [\<lparr>rc_id = ''b2'', rc_name = None, rc_col = 1, rc_row = 1\<rparr>,
                       \<lparr>rc_id = ''c3'', rc_name = Some ''Cy'', rc_col = 4, rc_row = 4\<rparr>],
         raf = False\<rparr>))
   = [\<lparr>rc_id = ''b2'', rc_name = None, rc_col = 7, rc_row = 2\<rparr>,
      \<lparr>rc_id = ''c3'', rc_name = Some ''Cy'', rc_col = 4, rc_row = 4\<rparr>]"
proof -
  let ?g = "\<lparr>gr_cols = 40, gr_rows = 24, tileCss = 32,
         gr_cursors = [\<lparr>rc_id = ''b2'', rc_name = None, rc_col = 1, rc_row = 1\<rparr>,
                       \<lparr>rc_id = ''c3'', rc_name = Some ''Cy'', rc_col = 4, rc_row = 4\<rparr>],
         raf = False\<rparr>"
  have d: "distinct (map rc_id (gr_cursors ?g))" by simp
  have u: "gr_cursors (upsertReplicatedCursor \<lparr>rc_id = ''b2'', rc_name = None, rc_col = 7, rc_row = 2\<rparr> ?g)
      = [\<lparr>rc_id = ''b2'', rc_name = None, rc_col = 7, rc_row = 2\<rparr>,
         \<lparr>rc_id = ''c3'', rc_name = Some ''Cy'', rc_col = 4, rc_row = 4\<rparr>]"
    by (simp add: cursors_upsert)
  show ?thesis
    using upsert_idempotent [OF d, of "\<lparr>rc_id = ''b2'', rc_name = None, rc_col = 7, rc_row = 2\<rparr>"] u
    by simp
qed

lemma cursors_dispatch:
  "gr_cursors (renderer (dispatch m a)) =
     (case m of
        WelcomeMsg i g \<Rightarrow> gr_cursors (renderer a)
      | PlayersSnapshotMsg ps \<Rightarrow>
          map (\<lambda>p. \<lparr>rc_id = p_id p, rc_name = p_name p,
                     rc_col = col (the (p_cursor p)), rc_row = row (the (p_cursor p))\<rparr>)
            (filter (\<lambda>p. p_cursor p \<noteq> None \<and> Some (p_id p) \<noteq> you a) ps)
      | PlayerUpdateMsg p \<Rightarrow>
          (if Some (p_id p) = you a then gr_cursors (renderer a)
           else case p_cursor p of
                  Some c \<Rightarrow> upsert_list \<lparr>rc_id = p_id p, rc_name = p_name p, rc_col = col c, rc_row = row c\<rparr>
                              (gr_cursors (renderer a))
                | None \<Rightarrow> gr_cursors (renderer a))
      | PlayerLeaveMsg i \<Rightarrow> filter (\<lambda>c. rc_id c \<noteq> i) (gr_cursors (renderer a)))"
  by (cases m)
    (simp_all add: onWelcome_def onPlayersSnapshot_def onPlayerUpdate_def onPlayerLeave_def
      setGrid_def cursors_set cursors_upsert_list cursors_remove Let_def split: option.splits)

lemma you_dispatch:
  "you (dispatch m a) = (case m of WelcomeMsg i g \<Rightarrow> Some i | _ \<Rightarrow> you a)"
  by (cases m)
    (simp_all add: onWelcome_def onPlayersSnapshot_def onPlayerUpdate_def onPlayerLeave_def
      Let_def split: option.splits)

lemma deliver_append: "deliver (xs @ ys) a = deliver ys (deliver xs a)"
  by (induction xs arbitrary: a) simp_all

lemma welcome_first_take: "welcome_first me seen ms \<Longrightarrow> welcome_first me seen (take n ms)"
proof (induction ms arbitrary: seen n)
  case Nil
  then show ?case by simp
next
  case (Cons m ms)
  show ?case
  proof (cases n)
    case 0
    then show ?thesis by simp
  next
    case (Suc k)
    then show ?thesis using Cons by (cases m) auto
  qed
qed

lemma never_local_dispatch:
  assumes "welcome_first me seen (m # ms)" and "seen \<longrightarrow> you a = Some me"
    and "me \<notin> rc_id ` set (gr_cursors (renderer a))"
  shows "me \<notin> rc_id ` set (gr_cursors (renderer (dispatch m a)))"
proof (cases m)
  case (WelcomeMsg i g)
  then show ?thesis using assms by (simp add: cursors_dispatch del: dispatch.simps)
next
  case (PlayersSnapshotMsg ps)
  then show ?thesis using assms by (auto simp: cursors_dispatch simp del: dispatch.simps)
next
  case (PlayerUpdateMsg p)
  then show ?thesis
    using assms upsert_list_ids [of _ "gr_cursors (renderer a)"]
    by (auto simp: cursors_dispatch simp del: dispatch.simps split: option.splits)
next
  case (PlayerLeaveMsg i)
  then show ?thesis using assms by (auto simp: cursors_dispatch simp del: dispatch.simps)
qed

lemma welcome_first_tail:
  assumes "welcome_first me seen (m # ms)" and "seen \<longrightarrow> you a = Some me"
  shows "\<exists>seen'. welcome_first me seen' ms \<and> (seen' \<longrightarrow> you (dispatch m a) = Some me)"
proof (cases m)
  case (WelcomeMsg i g)
  then have "welcome_first me True ms \<and> you (dispatch m a) = Some me"
    using assms by (simp add: you_dispatch del: dispatch.simps)
  then show ?thesis by blast
next
  case (PlayersSnapshotMsg ps)
  then have "welcome_first me seen ms \<and> (seen \<longrightarrow> you (dispatch m a) = Some me)"
    using assms by (cases seen) (simp_all add: you_dispatch del: dispatch.simps)
  then show ?thesis by blast
next
  case (PlayerUpdateMsg p)
  then have "welcome_first me seen ms \<and> (seen \<longrightarrow> you (dispatch m a) = Some me)"
    using assms by (cases seen) (simp_all add: you_dispatch del: dispatch.simps)
  then show ?thesis by blast
next
  case (PlayerLeaveMsg i)
  then have "welcome_first me seen ms \<and> (seen \<longrightarrow> you (dispatch m a) = Some me)"
    using assms by (cases seen) (simp_all add: you_dispatch del: dispatch.simps)
  then show ?thesis by blast
qed

lemma never_local_step:
  assumes "welcome_first me seen ms" and "seen \<longrightarrow> you a = Some me"
    and "me \<notin> rc_id ` set (gr_cursors (renderer a))"
  shows "me \<notin> rc_id ` set (gr_cursors (renderer (deliver ms a)))"
  using assms
proof (induction ms arbitrary: seen a)
  case Nil
  then show ?case by simp
next
  case (Cons m ms)
  obtain seen' where s: "welcome_first me seen' ms" "seen' \<longrightarrow> you (dispatch m a) = Some me"
    using welcome_first_tail [OF Cons.prems(1,2)] by blast
  have "me \<notin> rc_id ` set (gr_cursors (renderer (dispatch m a)))"
    by (rule never_local_dispatch [OF Cons.prems])
  then have "me \<notin> rc_id ` set (gr_cursors (renderer (deliver ms (dispatch m a))))"
    using Cons.IH [OF s] by simp
  then show ?case by simp
qed

text \<open>
  Claim C8. When every \<open>welcome\<close> of a run of messages carries the id \<open>me\<close> and no
  \<open>players\<close> or \<open>playerUpdate\<close> comes before the first \<open>welcome\<close>, then after every
  prefix of the run, delivered to a new page, no replicated cursor has the id \<open>me\<close>.
\<close>
theorem replicated_set_never_local:
  assumes "welcome_first me False ms"
  shows "me \<notin> rc_id ` set (gr_cursors (renderer (deliver (take n ms) App_new)))"
proof -
  have "welcome_first me False (take n ms)" using assms by (rule welcome_first_take)
  moreover have "me \<notin> rc_id ` set (gr_cursors (renderer App_new))" by (simp add: App_new_def)
  ultimately show ?thesis using never_local_step [of me False "take n ms" App_new] by simp
qed


text \<open>
  Claim C9. A \<open>playerUpdate\<close> whose player has no cursor leaves the page as it was, the
  replicated cursors included. An entry that is among the replicated cursors after a
  \<open>playerUpdate\<close> was there before or carries the coordinates of the cursor of the
  update; an entry after a \<open>players\<close> snapshot carries the coordinates of the cursor of a
  player of the snapshot.
\<close>
theorem update_without_cursor_ignored:
  "(p_cursor p = None \<longrightarrow> onPlayerUpdate p a = a)
   \<and> (\<forall>e \<in> set (gr_cursors (renderer (onPlayerUpdate p a))).
         e \<in> set (gr_cursors (renderer a))
         \<or> (p_cursor p = Some \<lparr>col = rc_col e, row = rc_row e\<rparr> \<and> rc_id e = p_id p))
   \<and> (\<forall>e \<in> set (gr_cursors (renderer (onPlayersSnapshot ps a))).
         \<exists>q \<in> set ps. p_cursor q = Some \<lparr>col = rc_col e, row = rc_row e\<rparr> \<and> rc_id e = p_id q)"
proof -
  have 1: "p_cursor p = None \<longrightarrow> onPlayerUpdate p a = a"
    by (simp add: onPlayerUpdate_def)
  have u: "set (upsert_list c cs) \<subseteq> insert c (set cs)" for c cs
    by (induction cs) auto
  have 2: "\<forall>e \<in> set (gr_cursors (renderer (onPlayerUpdate p a))).
         e \<in> set (gr_cursors (renderer a))
         \<or> (p_cursor p = Some \<lparr>col = rc_col e, row = rc_row e\<rparr> \<and> rc_id e = p_id p)"
  proof
    fix e assume e: "e \<in> set (gr_cursors (renderer (onPlayerUpdate p a)))"
    show "e \<in> set (gr_cursors (renderer a))
         \<or> (p_cursor p = Some \<lparr>col = rc_col e, row = rc_row e\<rparr> \<and> rc_id e = p_id p)"
    proof (cases "Some (p_id p) = you a \<or> p_cursor p = None")
      case True
      then have "onPlayerUpdate p a = a" by (auto simp: onPlayerUpdate_def)
      then show ?thesis using e by simp
    next
      case False
      then obtain c where c: "p_cursor p = Some c" by auto
      let ?n = "\<lparr>rc_id = p_id p, rc_name = p_name p, rc_col = col c, rc_row = row c\<rparr>"
      have "gr_cursors (renderer (onPlayerUpdate p a)) = upsert_list ?n (gr_cursors (renderer a))"
        using False c by (simp add: onPlayerUpdate_def cursors_upsert_list)
      then have "e = ?n \<or> e \<in> set (gr_cursors (renderer a))"
        using e u [of ?n "gr_cursors (renderer a)"] by auto
      then show ?thesis using c by auto
    qed
  qed
  have s: "\<lparr>col = col y, row = row y\<rparr> = y" for y :: Cursor
    by simp
  have 3: "\<forall>e \<in> set (gr_cursors (renderer (onPlayersSnapshot ps a))).
         \<exists>q \<in> set ps. p_cursor q = Some \<lparr>col = rc_col e, row = rc_row e\<rparr> \<and> rc_id e = p_id q"
    by (force simp: onPlayersSnapshot_def cursors_set s)
  show ?thesis using 1 2 3 by blast
qed

lemma distinct_remove:
  "distinct (map rc_id (gr_cursors g)) \<Longrightarrow> distinct (map rc_id (gr_cursors (removeReplicatedCursor i g)))"
  by (simp add: cursors_remove distinct_map_filter)

lemma distinct_upsert:
  "distinct (map rc_id (gr_cursors g)) \<Longrightarrow> distinct (map rc_id (gr_cursors (upsertReplicatedCursor c g)))"
  by (simp add: cursors_upsert_list upsert_list_distinct)

lemma distinct_snapshot:
  assumes "distinct (map p_id ps)"
  shows "distinct (map rc_id (gr_cursors (renderer (onPlayersSnapshot ps a))))"
proof -
  have "map rc_id (gr_cursors (renderer (onPlayersSnapshot ps a)))
      = map p_id (filter (\<lambda>p. p_cursor p \<noteq> None \<and> Some (p_id p) \<noteq> you a) ps)"
    by (simp add: onPlayersSnapshot_def cursors_set comp_def)
  then show ?thesis using assms by (simp add: distinct_map_filter)
qed

lemma distinct_players_of:
  assumes "store_ok s"
  shows "distinct (map p_id (players_of s))"
proof -
  have "map p_id (players_of s) = map (\<lambda>kv. cs_id (heap s ! snd kv)) (clients s)"
    by (simp add: players_of_def summary_def comp_def)
  also have "\<dots> = map fst (clients s)"
    using assms by (simp add: store_ok_iff)
  finally show ?thesis using assms by (simp add: store_ok_iff)
qed

lemma distinct_dispatch:
  assumes "distinct (map rc_id (gr_cursors (renderer a)))"
    and "\<And>ps. m = PlayersSnapshotMsg ps \<Longrightarrow> distinct (map p_id ps)"
  shows "distinct (map rc_id (gr_cursors (renderer (dispatch m a))))"
proof (cases m)
  case (WelcomeMsg i g)
  then show ?thesis using assms(1) by (simp add: onWelcome_def setGrid_def)
next
  case (PlayersSnapshotMsg ps)
  then show ?thesis using assms(2) by (simp add: distinct_snapshot)
next
  case (PlayerUpdateMsg p)
  then show ?thesis
    using assms(1) by (simp add: onPlayerUpdate_def distinct_upsert split: option.splits)
next
  case (PlayerLeaveMsg i)
  then show ?thesis using assms(1) by (simp add: onPlayerLeave_def distinct_remove)
qed

lemma deliver_example:
  "gr_cursors (renderer (deliver example_messages App_new))
     = [\<lparr>rc_id = ''b2'', rc_name = None, rc_col = 2, rc_row = 1\<rparr>]"
  by code_simp

theorem replicated_set_never_local_witness:
  "welcome_first ''a1'' False example_messages
   \<and> ''a1'' \<notin> rc_id ` set (gr_cursors (renderer (deliver (take 5 example_messages) App_new)))
   \<and> gr_cursors (renderer (deliver (take 5 example_messages) App_new))
       = [\<lparr>rc_id = ''b2'', rc_name = None, rc_col = 2, rc_row = 1\<rparr>]"
proof -
  have w: "welcome_first ''a1'' False example_messages"
    by (simp add: example_messages_def)
  have t: "take 5 example_messages = example_messages"
    by (simp add: example_messages_def)
  show ?thesis
    using replicated_set_never_local [OF w, of 5] w deliver_example
    by (simp add: t)
qed

theorem update_without_cursor_ignored_witness:
  "onPlayerUpdate \<lparr>p_id = ''c3'', p_name = Some ''Cy'', p_cursor = None, p_lastSeen = 11\<rparr>
     (deliver (take 3 example_messages) App_new)
   = deliver (take 3 example_messages) App_new
   \<and> gr_cursors (renderer (deliver (take 3 example_messages) App_new))
       = [\<lparr>rc_id = ''b2'', rc_name = None, rc_col = 1, rc_row = 1\<rparr>]"
proof -
  have c: "gr_cursors (renderer (deliver (take 3 example_messages) App_new))
       = [\<lparr>rc_id = ''b2'', rc_name = None, rc_col = 1, rc_row = 1\<rparr>]"
    by code_simp
  have "p_cursor \<lparr>p_id = ''c3'', p_name = Some ''Cy'', p_cursor = None, p_lastSeen = 11\<rparr> = None"
    by simp
  then have "onPlayerUpdate \<lparr>p_id = ''c3'', p_name = Some ''Cy'', p_cursor = None, p_lastSeen = 11\<rparr>
     (deliver (take 3 example_messages) App_new) = deliver (take 3 example_messages) App_new"
    by (rule update_without_cursor_ignored [THEN conjunct1, THEN mp])
  then show ?thesis using c by (rule conjI)
qed

section \<open>Properties of the terrain layer\<close>

lemma length_cols_loop: "length (cols_loop ncols tc r c0) = nat (ncols - c0)"
proof (induction ncols tc r c0 rule: cols_loop.induct)
  case (1 ncols tc r c)
  show ?case
  proof (cases "c < ncols")
    case True
    then show ?thesis using 1 by (subst cols_loop.simps) (simp add: nat_diff_distrib Suc_nat_eq_nat_zadd1)
  next
    case False
    then show ?thesis by (subst cols_loop.simps) simp
  qed
qed

lemma nth_cols_loop:
  "c0 \<le> c \<Longrightarrow> c < ncols \<Longrightarrow> cols_loop ncols tc r c0 ! nat (c - c0) = draw_tile tc c r"
proof (induction ncols tc r c0 rule: cols_loop.induct)
  case (1 ncols tc r c0)
  have lt: "c0 < ncols" using 1 by simp
  show ?case
  proof (cases "c = c0")
    case True
    then show ?thesis using lt by (subst cols_loop.simps) simp
  next
    case False
    then have "c0 + 1 \<le> c" using 1 by simp
    then have ih: "cols_loop ncols tc r (c0 + 1) ! nat (c - (c0 + 1)) = draw_tile tc c r"
      using 1 lt by simp
    have "nat (c - c0) = Suc (nat (c - (c0 + 1)))" using \<open>c0 + 1 \<le> c\<close> by simp
    then show ?thesis using lt ih by (subst cols_loop.simps) simp
  qed
qed

lemma nth_rows_loop:
  "r0 \<le> r \<Longrightarrow> r < nrows \<Longrightarrow> 0 \<le> c \<Longrightarrow> c < ncols \<Longrightarrow>
   rows_loop ncols nrows tc r0 ! (nat (r - r0) * nat ncols + nat c) = draw_tile tc c r"
proof (induction ncols nrows tc r0 rule: rows_loop.induct)
  case (1 ncols nrows tc r0)
  have lt: "r0 < nrows" using 1 by simp
  have len: "length (cols_loop ncols tc r0 0) = nat ncols" by (simp add: length_cols_loop)
  show ?case
  proof (cases "r = r0")
    case True
    have "cols_loop ncols tc r0 0 ! nat (c - 0) = draw_tile tc c r0"
      using 1 by (intro nth_cols_loop) simp_all
    then show ?thesis
      using True lt len 1(4,5) by (subst rows_loop.simps) (simp add: nth_append)
  next
    case False
    then have le: "r0 + 1 \<le> r" using 1 by simp
    then have ih: "rows_loop ncols nrows tc (r0 + 1) ! (nat (r - (r0 + 1)) * nat ncols + nat c)
        = draw_tile tc c r"
      using 1 lt by simp
    have "nat (r - r0) = Suc (nat (r - (r0 + 1)))" using le by simp
    then have "nat (r - r0) * nat ncols + nat c
        = nat ncols + (nat (r - (r0 + 1)) * nat ncols + nat c)" by simp
    then show ?thesis
      using lt ih len by (subst rows_loop.simps) (simp add: nth_append)
  qed
qed

lemma nth_drawBaseTerrain:
  assumes "0 \<le> c" "c < gr_cols g" "0 \<le> r" "r < gr_rows g"
  shows "drawBaseTerrain g ! nat (r * gr_cols g + c) = draw_tile (tileCss g) c r"
proof -
  have "nat (r * gr_cols g + c) = nat (r - 0) * nat (gr_cols g) + nat c"
    using assms by (simp add: nat_add_distrib nat_mult_distrib)
  then show ?thesis
    using nth_rows_loop [of 0 r "gr_rows g" c "gr_cols g" "tileCss g"] assms
    by (simp add: drawBaseTerrain_def)
qed

lemma draw_tile_colour:
  "td_seed (draw_tile tc c r) = hash2D c r 9001
   \<and> td_hDeg (draw_tile tc c r)
      = 112 + \<lfloor>rnd_sequence (mulberry32 (int (hash2D c r 9001))) 3 ! 0 * 10\<rfloor> - 5
   \<and> td_s (draw_tile tc c r)
      = 45 + \<lfloor>rnd_sequence (mulberry32 (int (hash2D c r 9001))) 3 ! 1 * 10\<rfloor> - 5
   \<and> td_l (draw_tile tc c r)
      = 44 + \<lfloor>rnd_sequence (mulberry32 (int (hash2D c r 9001))) 3 ! 2 * 10\<rfloor> - 5"
  by (simp add: draw_tile_def Let_def split_def eval_nat_numeral)


lemma rnd_state: "fst (rnd t) = t + 1831565813"
  by (simp add: rnd_def Let_def)

lemma mulberry32_exact: "mulberry32 seed + 15 * 1831565813 < 2 ^ 53"
proof -
  have "seed mod 2 ^ 32 < 2 ^ 32" by simp
  then have "mulberry32 seed < 2 ^ 32" by (simp add: mulberry32_def nat_less_iff)
  then show ?thesis by simp
qed

text \<open>
  Claim C10. What \<open>drawBaseTerrain\<close> draws for the tile in column \<open>c\<close> and row \<open>r\<close> is
  \<open>draw_tile\<close> of the tile size and \<open>(c, r)\<close>: the seed is \<open>hash2D c r 9001\<close>, and the hue,
  saturation and lightness are read from the first three numbers of the generator started
  from that seed. Two renderers, whatever their grids, cursors and pending frames, give the
  tile the same colour, and the same drawing when their tile sizes agree.
\<close>
theorem terrain_deterministic:
  assumes "0 \<le> c" "c < gr_cols g" "c < gr_cols g'" "0 \<le> r" "r < gr_rows g" "r < gr_rows g'"
  shows "drawBaseTerrain g ! nat (r * gr_cols g + c) = draw_tile (tileCss g) c r
    \<and> td_seed (drawBaseTerrain g ! nat (r * gr_cols g + c)) = hash2D c r 9001
    \<and> td_hDeg (drawBaseTerrain g ! nat (r * gr_cols g + c))
        = 112 + \<lfloor>rnd_sequence (mulberry32 (int (hash2D c r 9001))) 3 ! 0 * 10\<rfloor> - 5
    \<and> td_s (drawBaseTerrain g ! nat (r * gr_cols g + c))
        = 45 + \<lfloor>rnd_sequence (mulberry32 (int (hash2D c r 9001))) 3 ! 1 * 10\<rfloor> - 5
    \<and> td_l (drawBaseTerrain g ! nat (r * gr_cols g + c))
        = 44 + \<lfloor>rnd_sequence (mulberry32 (int (hash2D c r 9001))) 3 ! 2 * 10\<rfloor> - 5
    \<and> td_hDeg (drawBaseTerrain g' ! nat (r * gr_cols g' + c))
        = td_hDeg (drawBaseTerrain g ! nat (r * gr_cols g + c))
    \<and> td_s (drawBaseTerrain g' ! nat (r * gr_cols g' + c))
        = td_s (drawBaseTerrain g ! nat (r * gr_cols g + c))
    \<and> td_l (drawBaseTerrain g' ! nat (r * gr_cols g' + c))
        = td_l (drawBaseTerrain g ! nat (r * gr_cols g + c))
    \<and> (tileCss g' = tileCss g \<longrightarrow>
         drawBaseTerrain g' ! nat (r * gr_cols g' + c) = drawBaseTerrain g ! nat (r * gr_cols g + c))"
proof -
  have a: "drawBaseTerrain g ! nat (r * gr_cols g + c) = draw_tile (tileCss g) c r"
    using assms by (intro nth_drawBaseTerrain)
  have b: "drawBaseTerrain g' ! nat (r * gr_cols g' + c) = draw_tile (tileCss g') c r"
    using assms by (intro nth_drawBaseTerrain)
  show ?thesis
    unfolding a b using draw_tile_colour [of "tileCss g" c r] draw_tile_colour [of "tileCss g'" c r]
    by simp
qed

lemma draw_tile_5_3:
  "td_seed (draw_tile 32 5 3) = 3096924888 \<and> td_hDeg (draw_tile 32 5 3) = 112
   \<and> td_s (draw_tile 32 5 3) = 46 \<and> td_l (draw_tile 32 5 3) = 40"
  by (simp add: draw_tile_def hash2D_def imul_def mulberry32_def rnd_def unit_interval_def
      Let_def split_def)

theorem terrain_deterministic_witness:
  "drawBaseTerrain (renderer App_new) ! 125 = draw_tile 32 5 3
   \<and> td_seed (drawBaseTerrain (renderer App_new) ! 125) = 3096924888
   \<and> td_hDeg (drawBaseTerrain small_renderer ! 26) = 112
   \<and> td_s (drawBaseTerrain small_renderer ! 26) = 46
   \<and> td_l (drawBaseTerrain small_renderer ! 26) = 40"
proof -
  have g: "gr_cols (renderer App_new) = 40" "gr_rows (renderer App_new) = 24"
    "tileCss (renderer App_new) = 32"
    by (simp_all add: App_new_def)
  have g': "gr_cols small_renderer = 7" "gr_rows small_renderer = 5"
    by (simp_all add: small_renderer_def)
  have h: "(0::int) \<le> 5" "5 < gr_cols (renderer App_new)" "5 < gr_cols small_renderer"
    "(0::int) \<le> 3" "3 < gr_rows (renderer App_new)" "3 < gr_rows small_renderer"
    by (simp_all add: g g')
  note t = terrain_deterministic [OF h]
  have i: "nat (3 * gr_cols (renderer App_new) + 5) = 125" "nat (3 * gr_cols small_renderer + 5) = 26"
    by (simp_all add: g g')
  show ?thesis
    using t draw_tile_5_3 unfolding i g by simp
qed

end
